theory Spec2Isabelle
  imports Complex_Main
begin

section \<open>Data model\<close>

text \<open>
  The two screens \<^verbatim>\<open>app/index.tsx\<close> (native shell) and \<^verbatim>\<open>app/web.tsx\<close> (browser)
  declare the same interfaces. JavaScript numbers are modelled as exact rationals
  (rounding of doubles is not modelled; the one place where the code may divide by
  zero is written out in \<open>scan_progress\<close>). Only the fields the session logic reads
  are kept.
\<close>

record sequence_step =
  frequency :: rat
  duration :: rat
  intensity :: rat

record MRIPattern =
  pattern_id :: string
  duration_minutes :: rat
  sequence_pattern :: "sequence_step list"

record SoundProfile =
  profile_id :: string
  profile_type :: string

record UserSession =
  session_id :: string

text \<open>
  The text shown as current phase: the empty string, or the template
  \<^verbatim>\<open>`Phase ${sequenceIndex + 1}: ${currentSequence.frequency}Hz`\<close>, kept as its two
  holes rather than as formatted characters.
\<close>

datatype phase_label = NoPhase | PhaseName nat rat

text \<open>
  Everything a handler does to the outside, in the order it does it: backend requests,
  alerts, what a \<^verbatim>\<open>catch\<close> branch writes with \<^verbatim>\<open>console.error\<close>, calls on the
  audio object (type \<open>'a\<close>: an \<^verbatim>\<open>Audio.Sound\<close> handle in index.tsx, an audio element
  in web.tsx), and the calls of the setters of the displayed values \<^verbatim>\<open>isPlaying\<close>,
  \<^verbatim>\<open>scanProgress\<close>, \<^verbatim>\<open>timeRemaining\<close> and \<^verbatim>\<open>currentPhase\<close>. A call is listed
  also when it fails.
\<close>

datatype 'a effect =
    CreateSession string string rat
  | CompleteSession string
  | Alert string
  | ConsoleError string
  | UnloadAsync 'a
  | StopAsync 'a
  | SetVolumeAsync 'a rat
  | Pause 'a
  | Play 'a
  | GainSet 'a rat
  | ElementVolumeSet 'a rat
  | SetIsPlaying bool
  | SetScanProgress rat
  | SetTimeRemaining rat
  | SetCurrentPhase phase_label

text \<open>
  The callback handed to \<^verbatim>\<open>setInterval\<close> in \<^verbatim>\<open>startMRISimulation\<close> closes over
  the constants \<^verbatim>\<open>totalDuration\<close> and \<^verbatim>\<open>sequences\<close>, over the three counters
  declared with \<^verbatim>\<open>let\<close>, and over \<^verbatim>\<open>volume\<close>, the audio object and
  \<^verbatim>\<open>stopSession\<close> of the render in which the session was started (\<open>cap_volume\<close>,
  \<open>cap_sound\<close>, and \<open>cap_session\<close> for the \<^verbatim>\<open>currentSession\<close> that this
  \<^verbatim>\<open>stopSession\<close> reads).
\<close>

record 'a sim_closure =
  totalDuration :: rat
  sequences :: "sequence_step list"
  cap_volume :: rat
  cap_sound :: "'a option"
  cap_session :: "UserSession option"
  currentTime :: nat
  sequenceIndex :: nat
  sequenceStartTime :: nat

text \<open>
  The component: its \<^verbatim>\<open>useState\<close> values, the two \<^verbatim>\<open>useRef\<close> timer cells, and
  what the host keeps. \<^verbatim>\<open>isLoading\<close> is left out: it only disables the button while
  \<^verbatim>\<open>startSession\<close> is under way. The field \<open>sound\<close> is \<^verbatim>\<open>sound\<close> in index.tsx
  and \<^verbatim>\<open>audio\<close> in web.tsx. The host's part:
  \<^item> \<open>timers\<close>, the table of live intervals (oldest first), and \<open>next_timer\<close>, the
    next handle it will hand out. Handles are \<^verbatim>\<open>NodeJS.Timeout\<close> by the declared
    type, hence never falsy.
  \<^item> \<open>unloaded\<close>, the sounds of the native audio library on which
    \<^verbatim>\<open>unloadAsync\<close> has run: on these \<^verbatim>\<open>stopAsync\<close> rejects.
  \<^item> \<open>started\<close>, the audio elements of the browser whose buffer source has been
    started by \<^verbatim>\<open>play\<close>: \<^verbatim>\<open>source.stop()\<close> throws on a source that was never
    started, \<^verbatim>\<open>source.start()\<close> on one that was.
  \<^item> \<open>backend_up\<close>, whether a request to the backend gets an answer; otherwise
    \<^verbatim>\<open>fetch\<close> rejects.
\<close>

record 'a app_state =
  selectedMRIPattern :: "MRIPattern option"
  selectedSoundProfile :: "SoundProfile option"
  currentSession :: "UserSession option"
  isPlaying :: bool
  volume :: rat
  scanProgress :: rat
  timeRemaining :: rat
  currentPhase :: phase_label
  sound :: "'a option"
  scanTimer :: "nat option"
  progressTimer :: "nat option"
  timers :: "(nat \<times> 'a sim_closure) list"
  next_timer :: nat
  unloaded :: "nat list"
  started :: "nat list"
  backend_up :: bool

section \<open>Handlers shared by both screens\<close>

text \<open>
  \<^verbatim>\<open>if (ref.current) clearInterval(ref.current)\<close>: the interval leaves the host's
  table; the ref keeps the handle.
\<close>

definition clearInterval :: "nat option \<Rightarrow> 'a app_state \<Rightarrow> 'a app_state" where
  "clearInterval r s =
     (case r of
        None \<Rightarrow> s
      | Some i \<Rightarrow> s\<lparr>timers := filter (\<lambda>p. fst p \<noteq> i) (timers s)\<rparr>)"

text \<open>
  \<^verbatim>\<open>Math.min((currentTime / totalDuration) * 100, 100)\<close> for a \<^verbatim>\<open>currentTime\<close> of
  at least 1 (the callback increments before it divides). JavaScript gives
  \<^verbatim>\<open>Infinity\<close> for a positive number divided by zero, and the minimum with 100 is
  then 100; HOL's \<open>x / 0 = 0\<close> would say 0.
\<close>

definition scan_progress :: "nat \<Rightarrow> rat \<Rightarrow> rat" where
  "scan_progress t totalDur =
     (if totalDur = 0 then 100 else min (of_nat t / totalDur * 100) 100)"

text \<open>\<^verbatim>\<open>Math.min(volume * (currentSequence.intensity / 120), 1.0)\<close>\<close>

definition adjustedVolume :: "rat \<Rightarrow> sequence_step \<Rightarrow> rat" where
  "adjustedVolume v cur = min (v * (intensity cur / 120)) 1"

text \<open>
  The test of the \<^verbatim>\<open>if\<close> that moves to the next entry of the sequence, for the
  already incremented time \<open>t\<close>.
\<close>

definition phase_ends :: "nat \<Rightarrow> 'a sim_closure \<Rightarrow> bool" where
  "phase_ends t c =
     (of_nat t - of_nat (sequenceStartTime c) \<ge> duration (sequences c ! sequenceIndex c)
      \<and> int (sequenceIndex c) < int (length (sequences c)) - 1)"

text \<open>
  The counters after one run of the callback. The block under
  \<^verbatim>\<open>if (sequences && sequences.length > 0)\<close> and \<^verbatim>\<open>if (currentSequence)\<close> runs
  when the indexed entry exists.
\<close>

definition in_sequence :: "'a sim_closure \<Rightarrow> bool" where
  "in_sequence c = (sequences c \<noteq> [] \<and> sequenceIndex c < length (sequences c))"

definition tick_counters :: "'a sim_closure \<Rightarrow> 'a sim_closure" where
  "tick_counters c =
     (let t = currentTime c + 1 in
      if in_sequence c \<and> phase_ends t c
      then c\<lparr>currentTime := t, sequenceIndex := sequenceIndex c + 1, sequenceStartTime := t\<rparr>
      else c\<lparr>currentTime := t\<rparr>)"

text \<open>
  What the callback of a simulation started for pattern \<open>p\<close> closes over:
  \<^verbatim>\<open>totalDuration = duration_minutes * 60\<close>, the sequence, the values of the render,
  and the three counters at 0.
\<close>

definition new_closure ::
  "MRIPattern \<Rightarrow> rat \<Rightarrow> 'a option \<Rightarrow> UserSession option \<Rightarrow> 'a sim_closure" where
  "new_closure p volume_r sound_r session_r =
     \<lparr>totalDuration = duration_minutes p * 60, sequences = sequence_pattern p,
      cap_volume = volume_r, cap_sound = sound_r, cap_session = session_r,
      currentTime = 0, sequenceIndex = 0, sequenceStartTime = 0\<rparr>"

section \<open>The native screen (index.tsx)\<close>

text \<open>
  The two awaits of \<^verbatim>\<open>stopSession\<close> that can reject, for the audio object and the
  session its render sees: \<^verbatim>\<open>sound.stopAsync()\<close> on a sound that has been unloaded,
  and the request that completes the session when the backend gives no answer.
\<close>

definition stop_rejected :: "nat option \<Rightarrow> 'a app_state \<Rightarrow> bool" where
  "stop_rejected sound_r s = (case sound_r of Some h \<Rightarrow> h \<in> set (unloaded s) | None \<Rightarrow> False)"

definition complete_fails :: "UserSession option \<Rightarrow> 'a app_state \<Rightarrow> bool" where
  "complete_fails session_r s = (session_r \<noteq> None \<and> \<not> backend_up s)"

text \<open>
  \<^verbatim>\<open>stopSession\<close>. The whole body is inside \<^verbatim>\<open>try\<close>: a rejected await jumps to
  the \<^verbatim>\<open>catch\<close>, which only logs, so what comes after it in the body does not happen.
  When \<^verbatim>\<open>stopAsync\<close> rejects neither interval is cleared and no setter is called;
  when the request fails the intervals are cleared but no setter is called. An
  \<^verbatim>\<open>await\<close> is taken to finish before the next timer fires.
\<close>

definition stopSession ::
  "nat option \<Rightarrow> UserSession option \<Rightarrow> nat app_state \<Rightarrow> nat app_state \<times> nat effect list" where
  "stopSession sound_r session_r s =
     (let e1 = (case sound_r of Some h \<Rightarrow> [StopAsync h] | None \<Rightarrow> []) in
      if stop_rejected sound_r s
      then (s, e1 @ [ConsoleError ''Error stopping session:''])
      else
        let s1 = clearInterval (scanTimer s) s;
            s2 = clearInterval (progressTimer s1) s1;
            e2 = (case session_r of Some u \<Rightarrow> [CompleteSession (session_id u)] | None \<Rightarrow> [])
        in if complete_fails session_r s
           then (s2, e1 @ e2 @ [ConsoleError ''Error stopping session:''])
           else (s2\<lparr>isPlaying := False, scanProgress := 0, timeRemaining := 0,
                    currentPhase := NoPhase, currentSession := None\<rparr>,
                 e1 @ e2 @ [SetIsPlaying False, SetScanProgress 0, SetTimeRemaining 0,
                            SetCurrentPhase NoPhase]))"

text \<open>The stop button runs the \<^verbatim>\<open>stopSession\<close> of the latest render.\<close>

definition press_stop :: "nat app_state \<Rightarrow> nat app_state \<times> nat effect list" where
  "press_stop s = stopSession (sound s) (currentSession s) s"

text \<open>
  The body of the interval callback of \<^verbatim>\<open>startMRISimulation\<close>. The promise of
  \<^verbatim>\<open>setVolumeAsync\<close> is not awaited, so a rejection (the sound may be unloaded) does
  not touch the callback; \<^verbatim>\<open>stopSession()\<close> is not awaited either, and catches its
  own errors.
\<close>

definition interval_callback ::
  "nat sim_closure \<Rightarrow> nat app_state \<Rightarrow> nat sim_closure \<times> nat app_state \<times> nat effect list" where
  "interval_callback c s =
     (let t = currentTime c + 1;
          progress = scan_progress t (totalDuration c);
          remaining = max (totalDuration c - of_nat t) 0;
          s1 = s\<lparr>scanProgress := progress, timeRemaining := remaining\<rparr>;
          e1 = [SetScanProgress progress, SetTimeRemaining remaining];
          c' = tick_counters c;
          (s2, e2) =
            (if in_sequence c then
               let cur = sequences c ! sequenceIndex c;
                   phaseName = PhaseName (sequenceIndex c' + 1) (frequency cur)
               in (s1\<lparr>currentPhase := phaseName\<rparr>,
                   SetCurrentPhase phaseName #
                   (case cap_sound c of
                      Some h \<Rightarrow> [SetVolumeAsync h (adjustedVolume (cap_volume c) cur)]
                    | None \<Rightarrow> []))
             else (s1, []))
      in if of_nat t \<ge> totalDuration c
         then (let (s3, e3) = stopSession (cap_sound c) (cap_session c) s2
               in (c', s3, e1 @ e2 @ e3))
         else (c', s2, e1 @ e2))"

text \<open>
  \<^verbatim>\<open>startMRISimulation\<close> of a render with the given pattern, volume, audio object and
  session: a new interval enters the host's table and its handle overwrites
  \<^verbatim>\<open>progressTimer.current\<close>.
\<close>

definition startMRISimulation ::
  "MRIPattern option \<Rightarrow> rat \<Rightarrow> nat option \<Rightarrow> UserSession option \<Rightarrow> nat app_state
     \<Rightarrow> nat app_state \<times> nat effect list" where
  "startMRISimulation pattern_r volume_r sound_r session_r s =
     (case pattern_r of
        None \<Rightarrow> (s, [])
      | Some p \<Rightarrow>
          let totalDur = duration_minutes p * 60;
              i = next_timer s
          in (s\<lparr>timeRemaining := totalDur, scanProgress := 0, progressTimer := Some i,
                 timers := timers s @ [(i, new_closure p volume_r sound_r session_r)],
                 next_timer := i + 1\<rparr>,
              [SetTimeRemaining totalDur, SetScanProgress 0]))"

text \<open>
  \<^verbatim>\<open>loadAudioFile\<close>: unloads the audio object of its render (which resolves also for
  a sound already unloaded), then creates a new one, loaded; \<open>created = None\<close> is the
  \<^verbatim>\<open>catch\<close> branch (the session goes on without a new audio object).
\<close>

definition loadAudioFile ::
  "nat option \<Rightarrow> nat option \<Rightarrow> nat app_state \<Rightarrow> nat app_state \<times> nat effect list" where
  "loadAudioFile sound_r created s =
     (let e = (case sound_r of Some h \<Rightarrow> [UnloadAsync h] | None \<Rightarrow> []);
          s0 = (case sound_r of Some h \<Rightarrow> s\<lparr>unloaded := h # unloaded s\<rparr> | None \<Rightarrow> s)
      in case created of
           None \<Rightarrow> (s0, e @ [ConsoleError ''Error loading audio:''])
         | Some h' \<Rightarrow> (s0\<lparr>sound := Some h', unloaded := removeAll h' (unloaded s0)\<rparr>, e))"

text \<open>
  \<^verbatim>\<open>startSession\<close>, run by the start button on the state \<open>s\<close> of the latest render.
  \<open>reply\<close> is the session the backend returns (\<open>None\<close>: the request throws and the
  \<^verbatim>\<open>catch\<close> branch alerts). The simulation is started by this render's
  \<^verbatim>\<open>startMRISimulation\<close>, so it captures the values \<open>s\<close> had when the button was
  pressed, not the session and audio object set meanwhile.
\<close>

definition startSession ::
  "UserSession option \<Rightarrow> nat option \<Rightarrow> nat app_state \<Rightarrow> nat app_state \<times> nat effect list" where
  "startSession reply created s =
     (case (selectedMRIPattern s, selectedSoundProfile s) of
        (Some p, Some sp) \<Rightarrow>
          (case reply of
             None \<Rightarrow>
               (s, [CreateSession (pattern_id p) (profile_id sp) (volume s),
                    ConsoleError ''Error starting session:'',
                    Alert ''Failed to start masking session''])
           | Some sessionData \<Rightarrow>
               let s1 = s\<lparr>currentSession := Some sessionData\<rparr>;
                   (s2, e2) = loadAudioFile (sound s) created s1;
                   (s3, e3) = startMRISimulation (selectedMRIPattern s) (volume s) (sound s)
                                (currentSession s) s2
               in (s3\<lparr>isPlaying := True\<rparr>,
                   CreateSession (pattern_id p) (profile_id sp) (volume s) # e2 @ e3
                   @ [SetIsPlaying True]))
      | _ \<Rightarrow> (s, [Alert ''Please select both MRI pattern and sound profile'']))"

text \<open>\<^verbatim>\<open>adjustVolume\<close>, the slider's \<^verbatim>\<open>onValueChange\<close>.\<close>

definition adjustVolume :: "rat \<Rightarrow> nat app_state \<Rightarrow> nat app_state \<times> nat effect list" where
  "adjustVolume newVolume s =
     (s\<lparr>volume := newVolume\<rparr>,
      case sound s of
        Some h \<Rightarrow> (if isPlaying s then [SetVolumeAsync h newVolume] else [])
      | None \<Rightarrow> [])"

subsection \<open>The passing of time\<close>

text \<open>
  One second: every interval that is live at the start of the second fires once, oldest
  first, unless an earlier callback of the same second has cleared it. The counters the
  callback has changed are written back to the interval if it is still live.
\<close>

fun fire :: "nat list \<Rightarrow> nat app_state \<Rightarrow> nat app_state \<times> nat effect list" where
  "fire [] s = (s, [])"
| "fire (i # ids) s =
     (case map_of (timers s) i of
        None \<Rightarrow> fire ids s
      | Some c \<Rightarrow>
          let (c', s', e) = interval_callback c s;
              s'' = s'\<lparr>timers := map (\<lambda>p. if fst p = i then (i, c') else p) (timers s')\<rparr>;
              (s3, e3) = fire ids s''
          in (s3, e @ e3))"

definition second_passes :: "nat app_state \<Rightarrow> nat app_state \<times> nat effect list" where
  "second_passes s = fire (map fst (timers s)) s"

fun seconds :: "nat \<Rightarrow> nat app_state \<Rightarrow> nat app_state \<times> nat effect list" where
  "seconds 0 s = (s, [])"
| "seconds (Suc n) s =
     (let (s1, e1) = seconds n s; (s2, e2) = second_passes s1 in (s2, e1 @ e2))"

text \<open>
  The screen as first rendered: nothing selected, volume 0.7, no timers, the backend
  answering.
\<close>

definition initial_state :: "nat app_state" where
  "initial_state =
     \<lparr>selectedMRIPattern = None, selectedSoundProfile = None, currentSession = None,
      isPlaying = False, volume = 7 / 10, scanProgress = 0, timeRemaining = 0,
      currentPhase = NoPhase, sound = None, scanTimer = None, progressTimer = None,
      timers = [], next_timer = 0, unloaded = [], started = [], backend_up = True\<rparr>"

text \<open>
  The same interval firing \<open>n\<close> times with nothing else happening in between: the
  counters and the state after the \<open>n\<close>-th firing, and what that firing did.
\<close>

fun run_interval ::
  "nat \<Rightarrow> nat sim_closure \<Rightarrow> nat app_state
     \<Rightarrow> nat sim_closure \<times> nat app_state \<times> nat effect list" where
  "run_interval 0 c s = (c, s, [])"
| "run_interval (Suc n) c s =
     (let (c1, s1, e1) = run_interval n c s in interval_callback c1 s1)"

section \<open>The browser screen (web.tsx)\<close>

text \<open>
  The audio object of web.tsx is an audio element. The one built for the profile types
  \<^verbatim>\<open>white_noise\<close> and \<^verbatim>\<open>nature\<close> carries a \<^verbatim>\<open>gainNode\<close> and has its
  \<^verbatim>\<open>play\<close> and \<^verbatim>\<open>pause\<close> replaced: \<^verbatim>\<open>play\<close> starts the buffer source,
  \<^verbatim>\<open>pause\<close> stops it and closes the audio context. For the other types it is a
  plain element.
\<close>

record web_audio =
  element :: nat
  gainNode :: bool

text \<open>
  \<^verbatim>\<open>source.stop()\<close> throws when the source has not been started, and
  \<^verbatim>\<open>source.start()\<close> throws when it has. A plain element throws in neither.
\<close>

definition pause_throws :: "web_audio \<Rightarrow> 'a app_state \<Rightarrow> bool" where
  "pause_throws a s = (gainNode a \<and> element a \<notin> set (started s))"

definition play_throws :: "web_audio \<Rightarrow> 'a app_state \<Rightarrow> bool" where
  "play_throws a s = (gainNode a \<and> element a \<in> set (started s))"

text \<open>When \<^verbatim>\<open>audio.pause()\<close> throws inside \<^verbatim>\<open>stopSession\<close>.\<close>

definition web_stop_rejected :: "web_audio option \<Rightarrow> 'a app_state \<Rightarrow> bool" where
  "web_stop_rejected audio_r s = (case audio_r of Some a \<Rightarrow> pause_throws a s | None \<Rightarrow> False)"

text \<open>
  \<^verbatim>\<open>stopSession\<close> of web.tsx: as on the native screen, with \<^verbatim>\<open>audio.pause()\<close> for
  the stop of the sound. It is inside the \<^verbatim>\<open>try\<close> as well.
\<close>

definition web_stopSession ::
  "web_audio option \<Rightarrow> UserSession option \<Rightarrow> web_audio app_state
     \<Rightarrow> web_audio app_state \<times> web_audio effect list" where
  "web_stopSession audio_r session_r s =
     (let e1 = (case audio_r of Some a \<Rightarrow> [Pause a] | None \<Rightarrow> []) in
      if web_stop_rejected audio_r s
      then (s, e1 @ [ConsoleError ''Error stopping session:''])
      else
        let s1 = clearInterval (scanTimer s) s;
            s2 = clearInterval (progressTimer s1) s1;
            e2 = (case session_r of Some u \<Rightarrow> [CompleteSession (session_id u)] | None \<Rightarrow> [])
        in if complete_fails session_r s
           then (s2, e1 @ e2 @ [ConsoleError ''Error stopping session:''])
           else (s2\<lparr>isPlaying := False, scanProgress := 0, timeRemaining := 0,
                    currentPhase := NoPhase, currentSession := None\<rparr>,
                 e1 @ e2 @ [SetIsPlaying False, SetScanProgress 0, SetTimeRemaining 0,
                            SetCurrentPhase NoPhase]))"

definition web_press_stop :: "web_audio app_state \<Rightarrow> web_audio app_state \<times> web_audio effect list" where
  "web_press_stop s = web_stopSession (sound s) (currentSession s) s"

text \<open>
  \<^verbatim>\<open>if (audio && audio.gainNode) gainNode.gain.value = v else if (audio) audio.volume = v\<close>.
  What the browser does with a value the element does not accept is not modelled.
\<close>

definition web_set_volume :: "web_audio option \<Rightarrow> rat \<Rightarrow> web_audio effect list" where
  "web_set_volume audio_r v =
     (case audio_r of
        Some a \<Rightarrow> (if gainNode a then [GainSet a v] else [ElementVolumeSet a v])
      | None \<Rightarrow> [])"

text \<open>
  The body of the interval callback of web.tsx (lines 276 to 311): line for line that of
  index.tsx, but for the way the volume reaches the audio object.
\<close>

definition web_interval_callback ::
  "web_audio sim_closure \<Rightarrow> web_audio app_state
     \<Rightarrow> web_audio sim_closure \<times> web_audio app_state \<times> web_audio effect list" where
  "web_interval_callback c s =
     (let t = currentTime c + 1;
          progress = scan_progress t (totalDuration c);
          remaining = max (totalDuration c - of_nat t) 0;
          s1 = s\<lparr>scanProgress := progress, timeRemaining := remaining\<rparr>;
          e1 = [SetScanProgress progress, SetTimeRemaining remaining];
          c' = tick_counters c;
          (s2, e2) =
            (if in_sequence c then
               let cur = sequences c ! sequenceIndex c;
                   phaseName = PhaseName (sequenceIndex c' + 1) (frequency cur)
               in (s1\<lparr>currentPhase := phaseName\<rparr>,
                   SetCurrentPhase phaseName #
                   web_set_volume (cap_sound c) (adjustedVolume (cap_volume c) cur))
             else (s1, []))
      in if of_nat t \<ge> totalDuration c
         then (let (s3, e3) = web_stopSession (cap_sound c) (cap_session c) s2
               in (c', s3, e1 @ e2 @ e3))
         else (c', s2, e1 @ e2))"

definition web_startMRISimulation ::
  "MRIPattern option \<Rightarrow> rat \<Rightarrow> web_audio option \<Rightarrow> UserSession option
     \<Rightarrow> web_audio app_state \<Rightarrow> web_audio app_state \<times> web_audio effect list" where
  "web_startMRISimulation pattern_r volume_r audio_r session_r s =
     (case pattern_r of
        None \<Rightarrow> (s, [])
      | Some p \<Rightarrow>
          let totalDur = duration_minutes p * 60;
              i = next_timer s
          in (s\<lparr>timeRemaining := totalDur, scanProgress := 0, progressTimer := Some i,
                 timers := timers s @ [(i, new_closure p volume_r audio_r session_r)],
                 next_timer := i + 1\<rparr>,
              [SetTimeRemaining totalDur, SetScanProgress 0]))"

text \<open>
  \<^verbatim>\<open>loadAudioFile\<close> of web.tsx: pauses the audio object of its render, then builds a
  new element for the profile and stores it with \<^verbatim>\<open>setAudio\<close>. All of it is inside
  \<^verbatim>\<open>try\<close>: when the pause throws, or the element cannot be built
  (\<open>created = None\<close>), nothing is stored. The first component of the result says
  whether \<^verbatim>\<open>setAudio\<close> was called.
\<close>

definition web_loadAudioFile ::
  "web_audio option \<Rightarrow> SoundProfile \<Rightarrow> nat option \<Rightarrow> web_audio app_state
     \<Rightarrow> bool \<times> web_audio app_state \<times> web_audio effect list" where
  "web_loadAudioFile audio_r sp created s =
     (let e = (case audio_r of Some a \<Rightarrow> [Pause a] | None \<Rightarrow> []) in
      if web_stop_rejected audio_r s
      then (False, s, e @ [ConsoleError ''Error loading audio:''])
      else
        case created of
          None \<Rightarrow> (False, s, e @ [ConsoleError ''Error loading audio:''])
        | Some i \<Rightarrow>
            (True,
             s\<lparr>sound := Some \<lparr>element = i,
                               gainNode = (profile_type sp = ''white_noise''
                                           \<or> profile_type sp = ''nature'')\<rparr>,
                started := removeAll i (started s)\<rparr>,
             e))"

text \<open>
  The cleanup of the effect at lines 63 to 75 of web.tsx. Its dependency list is
  \<^verbatim>\<open>[audio]\<close>, so React runs it not only when the screen is unmounted but whenever a
  render finds \<^verbatim>\<open>audio\<close> changed, with the \<^verbatim>\<open>audio\<close> of the render before: it
  pauses that one and clears both timer refs, as they are at that moment. A throwing
  pause ends it there. (The effect of index.tsx has the dependency list \<^verbatim>\<open>[]\<close> and
  runs on unmount only, which is not modelled.)
\<close>

definition web_audio_cleanup ::
  "web_audio option \<Rightarrow> web_audio app_state \<Rightarrow> web_audio app_state \<times> web_audio effect list" where
  "web_audio_cleanup audio_r s =
     (let e = (case audio_r of Some a \<Rightarrow> [Pause a] | None \<Rightarrow> []) in
      if web_stop_rejected audio_r s then (s, e)
      else
        let s1 = clearInterval (scanTimer s) s
        in (clearInterval (progressTimer s1) s1, e))"

text \<open>
  \<^verbatim>\<open>startSession\<close> of web.tsx, run by the start button on the state \<open>s\<close> of the
  latest render. After the simulation is started it calls \<^verbatim>\<open>play\<close> on the audio
  object of its render. The state updates of the handler, \<^verbatim>\<open>setAudio\<close> among them,
  are rendered once the handler has run through (the continuation after
  \<^verbatim>\<open>await loadAudioFile\<close> runs before React renders); that render finds
  \<^verbatim>\<open>audio\<close> changed when \<^verbatim>\<open>setAudio\<close> was called, and runs the cleanup above.
\<close>

definition web_startSession ::
  "UserSession option \<Rightarrow> nat option \<Rightarrow> web_audio app_state
     \<Rightarrow> web_audio app_state \<times> web_audio effect list" where
  "web_startSession reply created s =
     (case (selectedMRIPattern s, selectedSoundProfile s) of
        (Some p, Some sp) \<Rightarrow>
          (case reply of
             None \<Rightarrow>
               (s, [CreateSession (pattern_id p) (profile_id sp) (volume s),
                    ConsoleError ''Error starting session:'',
                    Alert ''Failed to start masking session''])
           | Some sessionData \<Rightarrow>
               let s1 = s\<lparr>currentSession := Some sessionData\<rparr>;
                   (changed, s2, e2) = web_loadAudioFile (sound s) sp created s1;
                   (s3, e3) = web_startMRISimulation (selectedMRIPattern s) (volume s) (sound s)
                                (currentSession s) s2;
                   (s4, e4) =
                     (case sound s of
                        None \<Rightarrow> (s3\<lparr>isPlaying := True\<rparr>, [SetIsPlaying True])
                      | Some a \<Rightarrow>
                          if play_throws a s3
                          then (s3, [Play a, ConsoleError ''Error starting session:'',
                                     Alert ''Failed to start masking session''])
                          else (s3\<lparr>isPlaying := True,
                                   started := (if gainNode a then element a # started s3
                                               else started s3)\<rparr>,
                                [Play a, SetIsPlaying True]));
                   (s5, e5) = (if changed then web_audio_cleanup (sound s) s4 else (s4, []))
               in (s5, CreateSession (pattern_id p) (profile_id sp) (volume s) # e2 @ e3 @ e4 @ e5))
      | _ \<Rightarrow> (s, [Alert ''Please select both MRI pattern and sound profile'']))"

text \<open>
  \<^verbatim>\<open>adjustVolume\<close> of web.tsx, for the number that \<^verbatim>\<open>parseFloat\<close> reads from the
  range input.
\<close>

definition web_adjustVolume ::
  "rat \<Rightarrow> web_audio app_state \<Rightarrow> web_audio app_state \<times> web_audio effect list" where
  "web_adjustVolume newVolume s =
     (s\<lparr>volume := newVolume\<rparr>,
      if isPlaying s then web_set_volume (sound s) newVolume else [])"

subsection \<open>The passing of time in the browser\<close>

fun web_fire ::
  "nat list \<Rightarrow> web_audio app_state \<Rightarrow> web_audio app_state \<times> web_audio effect list" where
  "web_fire [] s = (s, [])"
| "web_fire (i # ids) s =
     (case map_of (timers s) i of
        None \<Rightarrow> web_fire ids s
      | Some c \<Rightarrow>
          let (c', s', e) = web_interval_callback c s;
              s'' = s'\<lparr>timers := map (\<lambda>p. if fst p = i then (i, c') else p) (timers s')\<rparr>;
              (s3, e3) = web_fire ids s''
          in (s3, e @ e3))"

definition web_second_passes ::
  "web_audio app_state \<Rightarrow> web_audio app_state \<times> web_audio effect list" where
  "web_second_passes s = web_fire (map fst (timers s)) s"

fun web_seconds ::
  "nat \<Rightarrow> web_audio app_state \<Rightarrow> web_audio app_state \<times> web_audio effect list" where
  "web_seconds 0 s = (s, [])"
| "web_seconds (Suc n) s =
     (let (s1, e1) = web_seconds n s; (s2, e2) = web_second_passes s1 in (s2, e1 @ e2))"

section \<open>What the two screens have in common\<close>

text \<open>
  The part of a closure that drives the timeline, and what one firing shows: the values
  set for display, the volume applied to whatever audio object the screen holds, the
  audio stop and the backend request.
\<close>

definition timeline :: "'a sim_closure \<Rightarrow> rat \<times> sequence_step list \<times> rat \<times> nat \<times> nat \<times> nat" where
  "timeline c =
     (totalDuration c, sequences c, cap_volume c, currentTime c, sequenceIndex c,
      sequenceStartTime c)"

datatype shown =
    Progress rat
  | Remaining rat
  | Phase phase_label
  | Playing bool
  | AppliedVolume rat
  | AudioStopped
  | SessionCompleted string

fun observe :: "'a effect \<Rightarrow> shown list" where
  "observe (SetScanProgress p) = [Progress p]"
| "observe (SetTimeRemaining r) = [Remaining r]"
| "observe (SetCurrentPhase l) = [Phase l]"
| "observe (SetIsPlaying b) = [Playing b]"
| "observe (SetVolumeAsync a v) = [AppliedVolume v]"
| "observe (GainSet a v) = [AppliedVolume v]"
| "observe (ElementVolumeSet a v) = [AppliedVolume v]"
| "observe (StopAsync a) = [AudioStopped]"
| "observe (Pause a) = [AudioStopped]"
| "observe (CompleteSession i) = [SessionCompleted i]"
| "observe _ = []"

definition observed :: "'a effect list \<Rightarrow> shown list" where
  "observed es = concat (map observe es)"

text \<open>The volumes a list of effects applies to the audio object, on either screen.\<close>

fun applied :: "'a effect \<Rightarrow> rat list" where
  "applied (SetVolumeAsync a v) = [v]"
| "applied (GainSet a v) = [v]"
| "applied (ElementVolumeSet a v) = [v]"
| "applied _ = []"

definition applied_volumes :: "'a effect list \<Rightarrow> rat list" where
  "applied_volumes es = concat (map applied es)"

section \<open>The phase rule as the specification words it\<close>

text \<open>
  The rule of the specification, to be compared with \<open>tick_counters\<close>: while the time
  spent in the phase has reached the phase's duration and the phase is not the last one,
  go to the next phase and restart the phase time at 0.
\<close>

function spec_phase_advance :: "sequence_step list \<Rightarrow> nat \<Rightarrow> rat \<Rightarrow> nat \<times> rat" where
  "spec_phase_advance phases i phaseElapsed =
     (if phaseElapsed \<ge> duration (phases ! i) \<and> int i < int (length phases) - 1
      then spec_phase_advance phases (i + 1) 0
      else (i, phaseElapsed))"
  by pat_completeness auto
termination
  by (relation "measure (\<lambda>(phases, i, phaseElapsed). length phases - i)") auto

text \<open>The time spent in the current phase, as the callback computes it.\<close>

definition sequenceElapsed :: "'a sim_closure \<Rightarrow> rat" where
  "sequenceElapsed c = of_nat (currentTime c) - of_nat (sequenceStartTime c)"

section \<open>Inputs used in examples\<close>

text \<open>
  The pattern of the specification's example run: six seconds in all, four seconds at
  1500 Hz and 120 dB, then two seconds at 2000 Hz and 60 dB.
\<close>

definition example_pattern :: MRIPattern where
  "example_pattern =
     \<lparr>pattern_id = ''example'', duration_minutes = 1 / 10,
      sequence_pattern =
        [\<lparr>frequency = 1500, duration = 4, intensity = 120\<rparr>,
         \<lparr>frequency = 2000, duration = 2, intensity = 60\<rparr>]\<rparr>"

text \<open>A pattern whose second phase has duration 0.\<close>

definition zero_length_pattern :: MRIPattern where
  "zero_length_pattern =
     \<lparr>pattern_id = ''short'', duration_minutes = 1,
      sequence_pattern =
        [\<lparr>frequency = 1500, duration = 1, intensity = 120\<rparr>,
         \<lparr>frequency = 1800, duration = 0, intensity = 100\<rparr>,
         \<lparr>frequency = 2000, duration = 5, intensity = 60\<rparr>]\<rparr>"

text \<open>A pattern with no phases and no duration.\<close>

definition empty_pattern :: MRIPattern where
  "empty_pattern = \<lparr>pattern_id = ''empty'', duration_minutes = 0, sequence_pattern = []\<rparr>"

definition example_profile :: SoundProfile where
  "example_profile = \<lparr>profile_id = ''ocean'', profile_type = ''nature''\<rparr>"

definition example_session :: UserSession where
  "example_session = \<lparr>session_id = ''s1''\<rparr>"

text \<open>The screen once the lists are loaded and their first entries selected.\<close>

definition ready_state :: "MRIPattern \<Rightarrow> nat app_state" where
  "ready_state p =
     initial_state\<lparr>selectedMRIPattern := Some p, selectedSoundProfile := Some example_profile\<rparr>"

text \<open>
  The browser screen as first rendered, the same with the example pattern and profile
  selected, and after a session has been started on it for which the audio element 0 was
  built.
\<close>

definition web_initial_state :: "web_audio app_state" where
  "web_initial_state =
     \<lparr>selectedMRIPattern = None, selectedSoundProfile = None, currentSession = None,
      isPlaying = False, volume = 7 / 10, scanProgress = 0, timeRemaining = 0,
      currentPhase = NoPhase, sound = None, scanTimer = None, progressTimer = None,
      timers = [], next_timer = 0, unloaded = [], started = [], backend_up = True\<rparr>"

definition web_ready_state :: "MRIPattern \<Rightarrow> web_audio app_state" where
  "web_ready_state p =
     web_initial_state\<lparr>selectedMRIPattern := Some p,
                       selectedSoundProfile := Some example_profile\<rparr>"

definition web_started_state :: "web_audio app_state" where
  "web_started_state =
     fst (web_startSession (Some example_session) (Some 0) (web_ready_state example_pattern))"

text \<open>
  The native screen after a session has been started for the example pattern and the
  audio object with handle 3 has been created for it.
\<close>

definition started_state :: "nat app_state" where
  "started_state = fst (startSession (Some example_session) (Some 3) (ready_state example_pattern))"

text \<open>
  A pattern of ten seconds, and the native screen when a session for it has run for
  three seconds and \<^verbatim>\<open>startSession\<close> is run again.
\<close>

definition ten_second_pattern :: MRIPattern where
  "ten_second_pattern =
     \<lparr>pattern_id = ''ten'', duration_minutes = 1 / 6,
      sequence_pattern = [\<lparr>frequency = 1500, duration = 10, intensity = 120\<rparr>]\<rparr>"

definition restarted_state :: "nat app_state" where
  "restarted_state =
     fst (startSession (Some \<lparr>session_id = ''s2''\<rparr>) (Some 4)
       (fst (seconds 3
         (fst (startSession (Some example_session) (Some 3) (ready_state ten_second_pattern))))))"

text \<open>
  The native screen in its second session for the example pattern: the volume set to
  0.5, a first session started (sound 3) and stopped with the button, a second session
  started (sound 4).
\<close>

definition second_session_state :: "nat app_state" where
  "second_session_state =
     fst (startSession (Some \<lparr>session_id = ''s2''\<rparr>) (Some 4)
       (fst (press_stop
         (fst (startSession (Some example_session) (Some 3)
           (fst (adjustVolume (1 / 2) (ready_state example_pattern))))))))"

text \<open>
  The counters of a simulation of the example pattern after three ticks (the fourth will
  leave the first phase), and the fresh counters of one for the pattern with a phase of
  duration 0.
\<close>

definition after_three_ticks :: "nat sim_closure" where
  "after_three_ticks =
     fst (run_interval 3 (new_closure example_pattern (1 / 2) None None) initial_state)"

definition zero_length_closure :: "nat sim_closure" where
  "zero_length_closure = new_closure zero_length_pattern (1 / 2) None None"

section \<open>Properties of one firing of the callback\<close>

lemma tick_counters_fields:
  "currentTime (tick_counters c) = currentTime c + 1"
  "totalDuration (tick_counters c) = totalDuration c"
  "sequences (tick_counters c) = sequences c"
  "cap_volume (tick_counters c) = cap_volume c"
  "cap_sound (tick_counters c) = cap_sound c"
  "cap_session (tick_counters c) = cap_session c"
  by (simp_all add: tick_counters_def Let_def)

lemma tick_counters_index:
  "sequenceIndex c \<le> sequenceIndex (tick_counters c)"
  "sequenceIndex (tick_counters c) \<le> sequenceIndex c + 1"
  "sequenceIndex c < length (sequences c) \<Longrightarrow>
     sequenceIndex (tick_counters c) < length (sequences c)"
  by (auto simp add: tick_counters_def Let_def phase_ends_def)

lemma fst_interval_callback: "fst (interval_callback c s) = tick_counters c"
  by (simp add: interval_callback_def Let_def split: prod.splits)

lemma fst_web_interval_callback: "fst (web_interval_callback c s) = tick_counters c"
  by (simp add: web_interval_callback_def Let_def split: prod.splits)

lemma fst_run_interval_Suc:
  "fst (run_interval (Suc n) c s) = tick_counters (fst (run_interval n c s))"
  by (simp add: fst_interval_callback split: prod.splits)

lemma run_interval_sequences: "sequences (fst (run_interval n c s)) = sequences c"
  by (induction n)
    (simp_all add: fst_run_interval_Suc tick_counters_fields del: run_interval.simps(2))

lemma run_interval_index_bound:
  "sequenceIndex c < length (sequences c) \<Longrightarrow>
   sequenceIndex (fst (run_interval n c s)) < length (sequences c)"
proof (induction n)
  case 0
  then show ?case by simp
next
  case (Suc n)
  then show ?case
    using tick_counters_index(3) [of "fst (run_interval n c s)"]
    by (simp add: fst_run_interval_Suc run_interval_sequences del: run_interval.simps(2))
qed

lemma scan_progress_pos:
  assumes "0 < totalDur"
  shows "scan_progress t totalDur = min 100 (of_nat t / totalDur * 100)"
    and "0 \<le> scan_progress t totalDur"
    and "scan_progress t totalDur \<le> 100"
    and "scan_progress t totalDur \<le> scan_progress (Suc t) totalDur"
    and "scan_progress t totalDur = 100 \<longleftrightarrow> totalDur \<le> of_nat t"
proof -
  show "scan_progress t totalDur = min 100 (of_nat t / totalDur * 100)"
    using assms by (simp add: scan_progress_def min.commute)
  show "0 \<le> scan_progress t totalDur"
    using assms by (simp add: scan_progress_def)
  show "scan_progress t totalDur \<le> 100"
    using assms by (simp add: scan_progress_def)
  have "of_nat t / totalDur * 100 \<le> of_nat (Suc t) / totalDur * 100"
    using assms by (simp add: divide_right_mono)
  then show "scan_progress t totalDur \<le> scan_progress (Suc t) totalDur"
    using assms by (simp add: scan_progress_def min_def)
  have "of_nat t / totalDur * 100 \<ge> 100 \<longleftrightarrow> totalDur \<le> of_nat t"
    using assms by (simp add: pos_le_divide_eq)
  then show "scan_progress t totalDur = 100 \<longleftrightarrow> totalDur \<le> of_nat t"
    using assms by (auto simp add: scan_progress_def min_def)
qed

lemma interval_callback_effects_prefix:
  "\<exists>rest. snd (snd (interval_callback c s)) =
     SetScanProgress (scan_progress (currentTime c + 1) (totalDuration c))
     # SetTimeRemaining (max (totalDuration c - of_nat (currentTime c + 1)) 0) # rest"
  by (simp add: interval_callback_def Let_def split: prod.splits)

section \<open>The phase index over a run\<close>

text \<open>
  Claim C5. For a pattern with at least one phase, the phase index of a simulation
  starts at 0, never decreases from one firing of the callback to the next, and never
  exceeds the number of phases minus one, however long the interval keeps firing.
\<close>

theorem phase_index_monotone_bounded:
  assumes "sequence_pattern p \<noteq> []"
  shows "sequenceIndex (fst (run_interval n (new_closure p v a u) s))
           \<le> sequenceIndex (fst (run_interval (Suc n) (new_closure p v a u) s))
         \<and> int (sequenceIndex (fst (run_interval n (new_closure p v a u) s)))
           \<le> int (length (sequence_pattern p)) - 1
         \<and> sequenceIndex (fst (run_interval 0 (new_closure p v a u) s)) = 0"
proof -
  let ?c = "new_closure p v a u"
  have seqs: "sequences ?c = sequence_pattern p" and idx0: "sequenceIndex ?c = 0"
    by (simp_all add: new_closure_def)
  have "sequenceIndex ?c < length (sequences ?c)"
    using assms by (simp add: seqs idx0)
  then have "sequenceIndex (fst (run_interval n ?c s)) < length (sequences ?c)"
    by (rule run_interval_index_bound)
  moreover have "sequenceIndex (fst (run_interval n ?c s))
      \<le> sequenceIndex (fst (run_interval (Suc n) ?c s))"
    unfolding fst_run_interval_Suc by (rule tick_counters_index(1))
  ultimately show ?thesis
    by (simp add: seqs idx0)
qed

theorem phase_index_monotone_bounded_witness:
  "sequence_pattern example_pattern \<noteq> []
   \<and> sequenceIndex
        (fst (run_interval 3 (new_closure example_pattern (1 / 2) (Some 0) None) initial_state))
       \<le> sequenceIndex
            (fst (run_interval (Suc 3) (new_closure example_pattern (1 / 2) (Some 0) None)
               initial_state))
   \<and> int (sequenceIndex
        (fst (run_interval 3 (new_closure example_pattern (1 / 2) (Some 0) None) initial_state)))
       \<le> int (length (sequence_pattern example_pattern)) - 1"
proof -
  have h: "sequence_pattern example_pattern \<noteq> []"
    by (simp add: example_pattern_def)
  show ?thesis
    using h phase_index_monotone_bounded [OF h, of 3 "1 / 2" "Some 0" None initial_state]
    by blast
qed

section \<open>Progress and remaining time\<close>

text \<open>
  Claim C6. For a positive total duration, every firing of the callback sets the progress
  to \<open>min 100 (elapsed / total * 100)\<close> and the remaining time to
  \<open>max 0 (total - elapsed)\<close>, where \<open>elapsed\<close> is the time counter it has just
  incremented. So the progress lies between 0 and 100, is 100 exactly when the elapsed
  time has reached the total, is not larger than the progress the next firing sets, and
  remaining plus elapsed time is the total until the total is passed.
\<close>

theorem each_tick_progress_and_remaining:
  assumes "0 < totalDuration c"
  shows "let c' = fst (interval_callback c s);
             elapsed = currentTime c';
             p = min 100 (of_nat elapsed / totalDuration c * 100);
             r = max 0 (totalDuration c - of_nat elapsed)
         in elapsed = currentTime c + 1
            \<and> (\<exists>rest. snd (snd (interval_callback c s))
                   = SetScanProgress p # SetTimeRemaining r # rest)
            \<and> 0 \<le> p \<and> p \<le> 100
            \<and> (p = 100 \<longleftrightarrow> totalDuration c \<le> of_nat elapsed)
            \<and> r + of_nat elapsed = max (totalDuration c) (of_nat elapsed)
            \<and> (\<forall>s'. \<exists>p' rest'. snd (snd (interval_callback c' s')) = SetScanProgress p' # rest'
                   \<and> p \<le> p')"
proof -
  let ?c' = "fst (interval_callback c s)"
  let ?t = "currentTime c + 1"
  let ?p = "min 100 (of_nat ?t / totalDuration c * 100)"
  let ?r = "max 0 (totalDuration c - of_nat ?t)"
  have t: "currentTime ?c' = ?t"
    by (simp add: fst_interval_callback tick_counters_fields)
  have tot: "totalDuration ?c' = totalDuration c"
    by (simp add: fst_interval_callback tick_counters_fields)
  have p: "scan_progress ?t (totalDuration c) = ?p"
    using scan_progress_pos(1) [OF assms] .
  obtain rest where "snd (snd (interval_callback c s))
      = SetScanProgress (scan_progress ?t (totalDuration c))
        # SetTimeRemaining (max (totalDuration c - of_nat ?t) 0) # rest"
    using interval_callback_effects_prefix [of c s] by blast
  then have eff: "snd (snd (interval_callback c s))
      = SetScanProgress ?p # SetTimeRemaining ?r # rest"
    unfolding p by (simp only: max.commute)
  have bounds: "0 \<le> ?p" "?p \<le> 100" "?p = 100 \<longleftrightarrow> totalDuration c \<le> of_nat ?t"
    using scan_progress_pos(2,3,5) [OF assms, of ?t] unfolding p by blast+
  have rem: "?r + of_nat ?t = max (totalDuration c) (of_nat ?t)"
    by (simp add: max_def)
  have nxt: "\<exists>p' rest'. snd (snd (interval_callback ?c' s')) = SetScanProgress p' # rest'
      \<and> ?p \<le> p'" for s'
  proof -
    obtain rest' where "snd (snd (interval_callback ?c' s'))
        = SetScanProgress (scan_progress (currentTime ?c' + 1) (totalDuration ?c')) # rest'"
      using interval_callback_effects_prefix [of ?c' s'] by blast
    then have "snd (snd (interval_callback ?c' s'))
        = SetScanProgress (scan_progress (Suc ?t) (totalDuration c)) # rest'"
      unfolding t tot by simp
    moreover have "?p \<le> scan_progress (Suc ?t) (totalDuration c)"
      using scan_progress_pos(4) [OF assms, of ?t] unfolding p .
    ultimately show ?thesis by blast
  qed
  show ?thesis
    unfolding Let_def t using eff bounds rem nxt by blast
qed

theorem each_tick_progress_and_remaining_witness:
  "0 < totalDuration (new_closure example_pattern (1 / 2) (Some 0) None)
   \<and> (let c = new_closure example_pattern (1 / 2) (Some 0) None;
          c' = fst (interval_callback c initial_state);
          elapsed = currentTime c';
          p = min 100 (of_nat elapsed / totalDuration c * 100);
          r = max 0 (totalDuration c - of_nat elapsed)
      in elapsed = 1 \<and> p = 50 / 3 \<and> r = 5
         \<and> (\<exists>rest. snd (snd (interval_callback c initial_state))
                = SetScanProgress p # SetTimeRemaining r # rest))"
proof -
  let ?c = "new_closure example_pattern (1 / 2) (Some 0) None"
  have h: "0 < totalDuration ?c"
    by (simp add: new_closure_def example_pattern_def)
  have v: "totalDuration ?c = 6" "currentTime ?c = 0"
    by (simp_all add: new_closure_def example_pattern_def)
  show ?thesis
    using h each_tick_progress_and_remaining [OF h, of initial_state]
    by (simp add: Let_def v fst_interval_callback tick_counters_fields)
qed

section \<open>The example run\<close>

text \<open>
  Claim C2, at the input where the code departs from it: the example pattern with the
  volume set to 0.5, in a session whose callback holds an audio object (on the native
  screen the second session is the first that does). Listed are the volumes the ticks 1
  to 6 apply. Tick 4 moves the phase index to 1, as the claim says, but reads the
  sequence entry before it moves the index: it shows phase number 2 with the frequency
  of the first phase and applies 0.5, where the claim has 0.25; 0.25 comes at tick 5. The
  sound the calls go to is the one of the session before, by then unloaded; and the
  callback of a first session holds no audio object, so that no volume is applied in it
  at all.
\<close>

theorem example_run_tick4:
  "map (\<lambda>n. map (\<lambda>q. sequenceIndex (snd q)) (timers (fst (seconds n second_session_state))))
     [0, 1, 2, 3, 4, 5, 6] = [[0], [0], [0], [0], [1], [1], [1]]
   \<and> map (\<lambda>n. applied_volumes (snd (second_passes (fst (seconds n second_session_state)))))
     [0, 1, 2, 3, 4, 5] = [[1 / 2], [1 / 2], [1 / 2], [1 / 2], [1 / 4], [1 / 4]]
   \<and> snd (second_passes (fst (seconds 3 second_session_state)))
     = [SetScanProgress (200 / 3), SetTimeRemaining 2, SetCurrentPhase (PhaseName 2 1500),
        SetVolumeAsync 3 (1 / 2)]
   \<and> unloaded second_session_state = [3]
   \<and> applied_volumes (snd (seconds 6 started_state)) = []"
  by code_simp

section \<open>The phase rule\<close>

declare spec_phase_advance.simps [simp del]

lemma spec_phase_advance_stop:
  "\<not> (pe \<ge> duration (phases ! i) \<and> int i < int (length phases) - 1) \<Longrightarrow>
   spec_phase_advance phases i pe = (i, pe)"
  by (subst spec_phase_advance.simps) auto

lemma spec_phase_advance_go:
  "pe \<ge> duration (phases ! i) \<and> int i < int (length phases) - 1 \<Longrightarrow>
   spec_phase_advance phases i pe = spec_phase_advance phases (i + 1) 0"
  by (subst spec_phase_advance.simps) simp

lemma spec_phase_advance_index: "i \<le> fst (spec_phase_advance phases i pe)"
proof (induction phases i pe rule: spec_phase_advance.induct)
  case (1 phases i pe)
  show ?case
  proof (cases "pe \<ge> duration (phases ! i) \<and> int i < int (length phases) - 1")
    case True
    with "1" have "i + 1 \<le> fst (spec_phase_advance phases (i + 1) 0)"
      by simp
    then show ?thesis
      using True by (simp add: spec_phase_advance_go)
  next
    case False
    then show ?thesis
      by (simp add: spec_phase_advance_stop)
  qed
qed

lemma callback_one_step:
  "(sequenceIndex (fst (interval_callback c s)), sequenceElapsed (fst (interval_callback c s)))
     = (if in_sequence c \<and> phase_ends (currentTime c + 1) c
        then (sequenceIndex c + 1, 0)
        else (sequenceIndex c, of_nat (currentTime c + 1) - of_nat (sequenceStartTime c)))"
  by (simp add: fst_interval_callback tick_counters_def sequenceElapsed_def Let_def)

text \<open>
  Claim C4, as the code has it. One firing of the callback tests once (the code has
  \<^verbatim>\<open>if\<close>, not \<^verbatim>\<open>while\<close>): when the time spent in the phase has reached the
  phase's duration and the phase is not the last one, the index goes up by one and the
  phase time restarts at 0, nothing carried over; otherwise both stay. When every phase
  has a positive duration this is what the while rule of the specification gives. A next
  phase of duration 0 or less that is not the last is not passed in the same firing, as
  the while rule would have it, but in the next.
\<close>

theorem phase_rule_one_step:
  "((sequenceIndex (fst (interval_callback c s)), sequenceElapsed (fst (interval_callback c s)))
      = (if in_sequence c
            \<and> of_nat (currentTime c + 1) - of_nat (sequenceStartTime c)
                \<ge> duration (sequences c ! sequenceIndex c)
            \<and> int (sequenceIndex c) < int (length (sequences c)) - 1
         then (sequenceIndex c + 1, 0)
         else (sequenceIndex c, of_nat (currentTime c + 1) - of_nat (sequenceStartTime c)))
     \<and> sequenceIndex (fst (interval_callback c s)) \<le> sequenceIndex c + 1)
   \<and> (in_sequence c \<and> (\<forall>p \<in> set (sequences c). 0 < duration p) \<longrightarrow>
        (sequenceIndex (fst (interval_callback c s)),
         sequenceElapsed (fst (interval_callback c s)))
          = spec_phase_advance (sequences c) (sequenceIndex c)
              (of_nat (currentTime c + 1) - of_nat (sequenceStartTime c)))
   \<and> (in_sequence c \<and> phase_ends (currentTime c + 1) c
        \<and> sequenceIndex c + 2 < length (sequences c)
        \<and> duration (sequences c ! (sequenceIndex c + 1)) \<le> 0 \<longrightarrow>
        sequenceIndex (fst (interval_callback c s)) = sequenceIndex c + 1
        \<and> sequenceIndex (fst (interval_callback (fst (interval_callback c s)) s'))
            = sequenceIndex c + 2
        \<and> sequenceIndex c + 2
            \<le> fst (spec_phase_advance (sequences c) (sequenceIndex c)
                  (of_nat (currentTime c + 1) - of_nat (sequenceStartTime c))))"
proof (intro conjI impI)
  let ?i = "sequenceIndex c"
  let ?e = "of_nat (currentTime c + 1) - of_nat (sequenceStartTime c) :: rat"
  show "(sequenceIndex (fst (interval_callback c s)),
         sequenceElapsed (fst (interval_callback c s)))
      = (if in_sequence c \<and> ?e \<ge> duration (sequences c ! ?i)
            \<and> int ?i < int (length (sequences c)) - 1
         then (?i + 1, 0) else (?i, ?e))"
    unfolding callback_one_step by (simp add: phase_ends_def)
  show "sequenceIndex (fst (interval_callback c s)) \<le> ?i + 1"
    unfolding fst_interval_callback by (rule tick_counters_index(2))
next
  let ?i = "sequenceIndex c"
  let ?e = "of_nat (currentTime c + 1) - of_nat (sequenceStartTime c) :: rat"
  assume a: "in_sequence c \<and> (\<forall>p \<in> set (sequences c). 0 < duration p)"
  show "(sequenceIndex (fst (interval_callback c s)),
         sequenceElapsed (fst (interval_callback c s)))
      = spec_phase_advance (sequences c) ?i ?e"
  proof (cases "phase_ends (currentTime c + 1) c")
    case True
    then have lt: "?i + 1 < length (sequences c)"
      by (simp add: phase_ends_def)
    then have "sequences c ! (?i + 1) \<in> set (sequences c)"
      by (rule nth_mem)
    with a have pos: "0 < duration (sequences c ! (?i + 1))"
      by blast
    have "spec_phase_advance (sequences c) ?i ?e = spec_phase_advance (sequences c) (?i + 1) 0"
      using True by (intro spec_phase_advance_go) (simp add: phase_ends_def)
    also have "\<dots> = (?i + 1, 0)"
      using pos by (intro spec_phase_advance_stop) simp
    finally show ?thesis
      using True a by (simp add: callback_one_step)
  next
    case False
    then have "spec_phase_advance (sequences c) ?i ?e = (?i, ?e)"
      by (intro spec_phase_advance_stop) (simp add: phase_ends_def)
    then show ?thesis
      using False by (simp add: callback_one_step)
  qed
next
  let ?i = "sequenceIndex c"
  let ?e = "of_nat (currentTime c + 1) - of_nat (sequenceStartTime c) :: rat"
  let ?c' = "fst (interval_callback c s)"
  assume a: "in_sequence c \<and> phase_ends (currentTime c + 1) c
      \<and> ?i + 2 < length (sequences c) \<and> duration (sequences c ! (?i + 1)) \<le> 0"
  then have c': "?c' = c\<lparr>currentTime := currentTime c + 1, sequenceIndex := ?i + 1,
      sequenceStartTime := currentTime c + 1\<rparr>"
    by (simp add: fst_interval_callback tick_counters_def Let_def)
  show one: "sequenceIndex ?c' = ?i + 1"
    by (simp add: c')
  have "in_sequence ?c' \<and> phase_ends (currentTime ?c' + 1) ?c'"
    using a unfolding c' by (simp add: in_sequence_def phase_ends_def)
  then show "sequenceIndex (fst (interval_callback ?c' s')) = ?i + 2"
    using one by (simp add: fst_interval_callback tick_counters_def Let_def)
  have "spec_phase_advance (sequences c) ?i ?e = spec_phase_advance (sequences c) (?i + 1) 0"
    using a by (intro spec_phase_advance_go) (simp add: phase_ends_def)
  also have "\<dots> = spec_phase_advance (sequences c) (?i + 1 + 1) 0"
    using a by (intro spec_phase_advance_go) simp
  finally have "spec_phase_advance (sequences c) ?i ?e
      = spec_phase_advance (sequences c) (?i + 2) 0"
    by (simp add: add.assoc)
  then show "?i + 2 \<le> fst (spec_phase_advance (sequences c) ?i ?e)"
    using spec_phase_advance_index [of "?i + 2" "sequences c" 0] by simp
qed

theorem phase_rule_one_step_witness:
  "in_sequence after_three_ticks
   \<and> list_all (\<lambda>p. 0 < duration p) (sequences after_three_ticks)
   \<and> (sequenceIndex (fst (interval_callback after_three_ticks initial_state)),
       sequenceElapsed (fst (interval_callback after_three_ticks initial_state)))
      = spec_phase_advance (sequences after_three_ticks) (sequenceIndex after_three_ticks)
          (of_nat (currentTime after_three_ticks + 1)
            - of_nat (sequenceStartTime after_three_ticks))
   \<and> (sequenceIndex after_three_ticks,
       sequenceIndex (fst (interval_callback after_three_ticks initial_state))) = (0, 1)
   \<and> in_sequence zero_length_closure
   \<and> phase_ends (currentTime zero_length_closure + 1) zero_length_closure
   \<and> sequenceIndex zero_length_closure + 2 < length (sequences zero_length_closure)
   \<and> duration (sequences zero_length_closure ! (sequenceIndex zero_length_closure + 1)) \<le> 0
   \<and> sequenceIndex (fst (interval_callback zero_length_closure initial_state))
       = sequenceIndex zero_length_closure + 1
   \<and> sequenceIndex (fst (interval_callback
         (fst (interval_callback zero_length_closure initial_state)) initial_state))
       = sequenceIndex zero_length_closure + 2
   \<and> sequenceIndex zero_length_closure + 2
       \<le> fst (spec_phase_advance (sequences zero_length_closure)
             (sequenceIndex zero_length_closure)
             (of_nat (currentTime zero_length_closure + 1)
               - of_nat (sequenceStartTime zero_length_closure)))"
proof -
  have a1: "in_sequence after_three_ticks"
    by code_simp
  have a2: "\<forall>p \<in> set (sequences after_three_ticks). 0 < duration p"
    by (simp add: after_three_ticks_def run_interval_sequences new_closure_def
        example_pattern_def)
  have a3: "(sequenceIndex after_three_ticks,
       sequenceIndex (fst (interval_callback after_three_ticks initial_state))) = (0, 1)"
    by code_simp
  have b1: "in_sequence zero_length_closure"
    and b2: "phase_ends (currentTime zero_length_closure + 1) zero_length_closure"
    and b3: "sequenceIndex zero_length_closure + 2 < length (sequences zero_length_closure)"
    and b4: "duration (sequences zero_length_closure ! (sequenceIndex zero_length_closure + 1))
        \<le> 0"
    by (simp_all add: zero_length_closure_def new_closure_def zero_length_pattern_def
        in_sequence_def phase_ends_def)
  note t1 = phase_rule_one_step [of after_three_ticks initial_state initial_state]
  note t2 = phase_rule_one_step [of zero_length_closure initial_state initial_state]
  note p2 = conjunct1 [OF conjunct2 [OF t1], rule_format, OF conjI [OF a1 a2]]
  note p3 = conjunct2 [OF conjunct2 [OF t2], rule_format,
      OF conjI [OF b1 conjI [OF b2 conjI [OF b3 b4]]]]
  have a2': "list_all (\<lambda>p. 0 < duration p) (sequences after_three_ticks)"
    using a2 by (simp only: list_all_iff)
  show ?thesis
    by (intro conjI a1 a2' p2 a3 b1 b2 b3 b4 conjunct1 [OF p3]
        conjunct1 [OF conjunct2 [OF p3]] conjunct2 [OF conjunct2 [OF p3]])
qed

text \<open>
  Against claim C4 as stated: with a phase of duration 0 after the first phase, the first
  tick leaves the code in phase 1, where the while rule goes on to phase 2.
\<close>

theorem phase_rule_counterexample:
  "(sequenceIndex
      (fst (interval_callback (new_closure zero_length_pattern (1 / 2) None None) initial_state)),
    sequenceElapsed
      (fst (interval_callback (new_closure zero_length_pattern (1 / 2) None None) initial_state)))
     = (1, 0)
   \<and> spec_phase_advance (sequence_pattern zero_length_pattern) 0 1 = (2, 0)"
  by code_simp

section \<open>The volume slider\<close>

text \<open>
  Claim C8, as the code has it. \<^verbatim>\<open>adjustVolume\<close> checks no range: whatever number it
  is given becomes the stored volume, and is handed as it is to the audio object when
  there is one and a session is playing. (The sliders of both screens range from 0 to 1.)
\<close>

theorem adjustVolume_stores_any_value:
  "volume (fst (adjustVolume newVolume s)) = newVolume
   \<and> snd (adjustVolume newVolume s)
       = (case sound s of
            Some h \<Rightarrow> if isPlaying s then [SetVolumeAsync h newVolume] else []
          | None \<Rightarrow> [])
   \<and> volume (fst (web_adjustVolume newVolume w)) = newVolume
   \<and> snd (web_adjustVolume newVolume w)
       = (if isPlaying w then web_set_volume (sound w) newVolume else [])"
  by (simp add: adjustVolume_def web_adjustVolume_def)

text \<open>
  Against claim C8 as stated: the value 1.5 is stored, and passed to the audio object of
  a playing session.
\<close>

theorem adjustVolume_counterexample:
  "volume (fst (adjustVolume (3 / 2) started_state)) = 3 / 2
   \<and> fst (adjustVolume (3 / 2) started_state) \<noteq> started_state
   \<and> snd (adjustVolume (3 / 2) started_state) = [SetVolumeAsync 3 (3 / 2)]"
  by code_simp

section \<open>Stopping twice\<close>

lemma clearInterval_both:
  "clearInterval q (clearInterval r s)
     = s\<lparr>timers := filter (\<lambda>p. Some (fst p) \<noteq> r \<and> Some (fst p) \<noteq> q) (timers s)\<rparr>"
  by (cases r; cases q) (simp_all add: clearInterval_def conj_commute)

lemma clearInterval_progressTimer:
  "progressTimer (clearInterval r s) = progressTimer s"
  by (simp add: clearInterval_def split: option.splits)

text \<open>A stop in which neither await rejects, and what is left when one does.\<close>

lemma stopSession_done:
  assumes "\<not> stop_rejected a s" and "\<not> complete_fails b s"
  shows "stopSession a b s
     = (s\<lparr>timers := filter (\<lambda>p. Some (fst p) \<noteq> scanTimer s \<and> Some (fst p) \<noteq> progressTimer s)
                       (timers s),
          isPlaying := False, scanProgress := 0, timeRemaining := 0,
          currentPhase := NoPhase, currentSession := None\<rparr>,
        (case a of Some h \<Rightarrow> [StopAsync h] | None \<Rightarrow> [])
        @ (case b of Some u \<Rightarrow> [CompleteSession (session_id u)] | None \<Rightarrow> [])
        @ [SetIsPlaying False, SetScanProgress 0, SetTimeRemaining 0, SetCurrentPhase NoPhase])"
  using assms
  by (simp add: stopSession_def Let_def clearInterval_both clearInterval_progressTimer)











section \<open>Sessions over time\<close>

lemma stopSession_host:
  "unloaded (fst (stopSession a b s)) = unloaded s"
  "backend_up (fst (stopSession a b s)) = backend_up s"
  by (simp_all add: stopSession_def Let_def clearInterval_def split: option.splits)

lemma callback_host:
  "unloaded (fst (snd (interval_callback c s))) = unloaded s"
  "backend_up (fst (snd (interval_callback c s))) = backend_up s"
  by (simp_all add: interval_callback_def Let_def case_prod_beta stopSession_host)

lemma callback_state_running:
  assumes "\<not> totalDuration c \<le> of_nat (currentTime c + 1)"
  shows "\<exists>p r l. fst (snd (interval_callback c s))
           = s\<lparr>scanProgress := p, timeRemaining := r, currentPhase := l\<rparr>"
proof (cases "in_sequence c")
  case True
  with assms show ?thesis
    by (simp add: interval_callback_def Let_def) blast
next
  case False
  with assms have "fst (snd (interval_callback c s))
      = s\<lparr>scanProgress := scan_progress (currentTime c + 1) (totalDuration c),
           timeRemaining := max (totalDuration c - of_nat (currentTime c + 1)) 0,
           currentPhase := currentPhase s\<rparr>"
    by (simp add: interval_callback_def Let_def)
  then show ?thesis by blast
qed

lemma callback_effects_running:
  assumes "\<not> totalDuration c \<le> of_nat (currentTime c + 1)"
  shows "count_list (snd (snd (interval_callback c s))) (SetIsPlaying False) = 0"
  using assms
  by (simp add: interval_callback_def Let_def split: option.splits)

text \<open>
  The completing firing of a callback that holds neither an audio object nor a session:
  its \<^verbatim>\<open>stopSession\<close> has nothing to await and goes through.
\<close>

lemma callback_final_quiet:
  assumes "totalDuration c \<le> of_nat (currentTime c + 1)"
    and "cap_sound c = None" and "cap_session c = None"
  shows "fst (snd (interval_callback c s)) = fst (stopSession None None s)"
    and "count_list (snd (snd (interval_callback c s))) (SetIsPlaying False) = 1"
  using assms
  by (simp_all add: interval_callback_def Let_def case_prod_beta stopSession_done
      stop_rejected_def complete_fails_def)

lemma stopSession_effects_host:
  assumes "unloaded s' = unloaded s" and "backend_up s' = backend_up s"
  shows "snd (stopSession a b s') = snd (stopSession a b s)"
  using assms
  by (simp add: stopSession_def Let_def stop_rejected_def complete_fails_def
      split: option.splits)

lemma stopSession_effects_frame:
  "snd (stopSession a b (s\<lparr>scanProgress := p, timeRemaining := r\<rparr>)) = snd (stopSession a b s)"
  "snd (stopSession a b (s\<lparr>scanProgress := p, timeRemaining := r, currentPhase := l\<rparr>))
     = snd (stopSession a b s)"
  by (rule stopSession_effects_host; simp)+

lemma callback_effects_host:
  assumes "unloaded s' = unloaded s" and "backend_up s' = backend_up s"
  shows "snd (snd (interval_callback c s')) = snd (snd (interval_callback c s))"
  using stopSession_effects_host [OF assms]
  by (simp add: interval_callback_def Let_def case_prod_beta stopSession_effects_frame)

lemma fire_step:
  assumes "map_of (timers s) i = Some c"
  shows "fire (i # ids) s
     = (let s' = fst (snd (interval_callback c s));
            s'' = s'\<lparr>timers := map (\<lambda>p. if fst p = i then (i, tick_counters c) else p)
                                 (timers s')\<rparr>
        in (fst (fire ids s''), snd (snd (interval_callback c s)) @ snd (fire ids s'')))"
  using assms
  by (simp add: case_prod_beta fst_interval_callback Let_def cong: if_cong)

lemma second_passes_idle: "timers s = [] \<Longrightarrow> second_passes s = (s, [])"
  by (simp add: second_passes_def)

lemma second_passes_alone_running:
  assumes "timers s = [(j, c)]" and "\<not> totalDuration c \<le> of_nat (currentTime c + 1)"
  shows "\<exists>p r l. second_passes s
     = (s\<lparr>scanProgress := p, timeRemaining := r, currentPhase := l,
           timers := [(j, tick_counters c)]\<rparr>,
        snd (snd (interval_callback c s)))"
proof -
  obtain p r l where st: "fst (snd (interval_callback c s))
      = s\<lparr>scanProgress := p, timeRemaining := r, currentPhase := l\<rparr>"
    using callback_state_running [OF assms(2)] by blast
  have m: "map_of (timers s) j = Some c"
    using assms(1) by simp
  have "second_passes s
      = (s\<lparr>scanProgress := p, timeRemaining := r, currentPhase := l,
            timers := [(j, tick_counters c)]\<rparr>,
         snd (snd (interval_callback c s)))"
    using assms(1) by (simp add: second_passes_def fire_step [OF m] st Let_def del: fire.simps(2))
  then show ?thesis by blast
qed

lemma second_passes_alone_final:
  assumes "timers s = [(j, c)]" and "progressTimer s = Some j"
    and "totalDuration c \<le> of_nat (currentTime c + 1)"
    and "cap_sound c = None" and "cap_session c = None"
  shows "second_passes s = (fst (stopSession None None s), snd (snd (interval_callback c s)))"
proof -
  have m: "map_of (timers s) j = Some c"
    using assms(1) by simp
  have t: "timers (fst (stopSession None None s)) = []"
    using assms(1,2) by (simp add: stopSession_done stop_rejected_def complete_fails_def)
  show ?thesis
    using assms(1) t
    by (simp add: second_passes_def fire_step [OF m] callback_final_quiet(1) [OF assms(3-5)]
        Let_def del: fire.simps(2))
qed

lemma seconds_Suc:
  "fst (seconds (Suc n) s) = fst (second_passes (fst (seconds n s)))"
  "snd (seconds (Suc n) s) = snd (seconds n s) @ snd (second_passes (fst (seconds n s)))"
  by (simp_all add: case_prod_beta Let_def)

lemma run_interval_clock:
  "currentTime (fst (run_interval n c s)) = currentTime c + n"
  "totalDuration (fst (run_interval n c s)) = totalDuration c"
  "cap_sound (fst (run_interval n c s)) = cap_sound c"
  "cap_session (fst (run_interval n c s)) = cap_session c"
  by (induction n)
    (simp_all add: fst_run_interval_Suc tick_counters_fields del: run_interval.simps(2))

lemma run_interval_host:
  "unloaded (fst (snd (run_interval n c s))) = unloaded s"
  "backend_up (fst (snd (run_interval n c s))) = backend_up s"
  by (induction n) (simp_all add: case_prod_beta callback_host)

text \<open>
  A session that runs alone is the firing of its one interval. While the total duration
  is not reached, a second changes nothing in the state but the three displayed values
  and the counters of the interval, which are those \<open>run_interval\<close> gives; and the
  next second does what the next firing does, the completing one included. So what is
  proved of \<open>run_interval\<close> holds of every tick of such a session.
\<close>

lemma run_alone_invariant:
  assumes "timers s1 = [(j, c0)]" and "currentTime c0 = 0" and "totalDuration c0 = of_nat N"
  shows "k < N \<Longrightarrow>
     (\<exists>p r l. fst (seconds k s1)
        = s1\<lparr>scanProgress := p, timeRemaining := r, currentPhase := l,
              timers := [(j, fst (run_interval k c0 s0))]\<rparr>)
     \<and> count_list (snd (seconds k s1)) (SetIsPlaying False) = 0"
proof (induction k)
  case 0
  have e: "s1 = s1\<lparr>scanProgress := scanProgress s1, timeRemaining := timeRemaining s1,
      currentPhase := currentPhase s1, timers := [(j, c0)]\<rparr>"
    using assms(1) by simp
  have "\<exists>p r l. s1 = s1\<lparr>scanProgress := p, timeRemaining := r, currentPhase := l,
      timers := [(j, c0)]\<rparr>"
    by (rule exI, rule exI, rule exI, rule e)
  then show ?case
    by simp
next
  case (Suc k)
  then have kN: "k < N" by simp
  let ?s = "fst (seconds k s1)"
  let ?c = "fst (run_interval k c0 s0)"
  from Suc.IH [OF kN] obtain p r l where
    frame: "?s = s1\<lparr>scanProgress := p, timeRemaining := r, currentPhase := l,
                     timers := [(j, ?c)]\<rparr>"
    and cnt: "count_list (snd (seconds k s1)) (SetIsPlaying False) = 0"
    by blast
  have t: "timers ?s = [(j, ?c)]"
    by (subst frame) simp
  have run: "\<not> totalDuration ?c \<le> of_nat (currentTime ?c + 1)"
    using Suc.prems assms(2,3) by (simp add: run_interval_clock)
  obtain p' r' l' where step: "second_passes ?s
      = (?s\<lparr>scanProgress := p', timeRemaining := r', currentPhase := l',
             timers := [(j, tick_counters ?c)]\<rparr>,
         snd (snd (interval_callback ?c ?s)))"
    using second_passes_alone_running [OF t run] by blast
  have "fst (seconds (Suc k) s1)
      = s1\<lparr>scanProgress := p', timeRemaining := r', currentPhase := l',
            timers := [(j, fst (run_interval (Suc k) c0 s0))]\<rparr>"
    unfolding seconds_Suc fst_run_interval_Suc step by (subst frame) simp
  moreover have "count_list (snd (seconds (Suc k) s1)) (SetIsPlaying False) = 0"
    unfolding seconds_Suc step using cnt callback_effects_running [OF run]
    by simp
  ultimately show ?case by blast
qed

lemma session_alone_is_run_interval:
  assumes "timers s1 = [(j, c0)]" and "currentTime c0 = 0" and "totalDuration c0 = of_nat N"
    and "unloaded s0 = unloaded s1" and "backend_up s0 = backend_up s1"
  shows "k < N \<Longrightarrow>
     timers (fst (seconds k s1)) = [(j, fst (run_interval k c0 s0))]
     \<and> snd (second_passes (fst (seconds k s1))) = snd (snd (run_interval (Suc k) c0 s0))"
proof -
  assume kN: "k < N"
  let ?s = "fst (seconds k s1)"
  let ?c = "fst (run_interval k c0 s0)"
  let ?r = "fst (snd (run_interval k c0 s0))"
  from run_alone_invariant [OF assms(1-3) kN, of s0] obtain p r l where
    frame: "?s = s1\<lparr>scanProgress := p, timeRemaining := r, currentPhase := l,
                     timers := [(j, ?c)]\<rparr>"
    by blast
  have t: "timers ?s = [(j, ?c)]"
    by (subst frame) simp
  have host: "unloaded ?s = unloaded ?r" "backend_up ?s = backend_up ?r"
    using assms(4,5) by (subst frame, simp add: run_interval_host)+
  have m: "map_of (timers ?s) j = Some ?c"
    using t by simp
  have "snd (second_passes ?s) = snd (snd (interval_callback ?c ?s))"
    using t by (simp add: second_passes_def fire_step [OF m] Let_def del: fire.simps(2))
  also have "\<dots> = snd (snd (interval_callback ?c ?r))"
    using host by (rule callback_effects_host)
  also have "\<dots> = snd (snd (run_interval (Suc k) c0 s0))"
    by (simp add: case_prod_beta)
  finally show ?thesis
    using t by blast
qed

lemma stopped_from_frame:
  assumes "timers s1 = [(j, c0)]" and "progressTimer s1 = Some j"
    and "\<not> stop_rejected a s1" and "\<not> complete_fails b s1"
  shows "fst (stopSession a b (s1\<lparr>scanProgress := p, timeRemaining := r, currentPhase := l,
                                   timers := [(j, c)]\<rparr>))
       = fst (stopSession None None s1)"
proof -
  let ?s = "s1\<lparr>scanProgress := p, timeRemaining := r, currentPhase := l, timers := [(j, c)]\<rparr>"
  have ok: "\<not> stop_rejected a ?s" "\<not> complete_fails b ?s"
    using assms(3,4)
    by (simp_all add: stop_rejected_def complete_fails_def split: option.splits)
  have ok1: "\<not> stop_rejected None s1" "\<not> complete_fails None s1"
    by (simp_all add: stop_rejected_def complete_fails_def)
  show ?thesis
    using assms(1,2) by (simp add: stopSession_done [OF ok] stopSession_done [OF ok1])
qed

lemma run_alone_completion:
  assumes "timers s1 = [(j, c0)]" and "progressTimer s1 = Some j" and "currentTime c0 = 0"
    and "totalDuration c0 = of_nat N" and "cap_sound c0 = None" and "cap_session c0 = None"
    and "0 < N"
  shows "N \<le> m \<Longrightarrow>
     fst (seconds m s1) = fst (stopSession None None s1)
     \<and> count_list (snd (seconds m s1)) (SetIsPlaying False) = 1"
proof (induction m)
  case 0
  with assms(7) show ?case by simp
next
  case (Suc m)
  have idle: "timers (fst (stopSession None None s1)) = []"
    using assms(1,2) by (simp add: stopSession_done stop_rejected_def complete_fails_def)
  show ?case
  proof (cases "N \<le> m")
    case True
    from Suc.IH [OF True] have st: "fst (seconds m s1) = fst (stopSession None None s1)"
      and cnt: "count_list (snd (seconds m s1)) (SetIsPlaying False) = 1"
      by blast+
    have "second_passes (fst (seconds m s1)) = (fst (stopSession None None s1), [])"
      unfolding st using idle by (rule second_passes_idle)
    then show ?thesis
      unfolding seconds_Suc using st cnt by simp
  next
    case False
    with Suc.prems have mN: "m < N" and N: "N = Suc m" by simp_all
    let ?s = "fst (seconds m s1)"
    let ?c = "fst (run_interval m c0 s1)"
    from run_alone_invariant [OF assms(1,3,4) mN, of s1] obtain p r l where
      frame: "?s = s1\<lparr>scanProgress := p, timeRemaining := r, currentPhase := l,
                       timers := [(j, ?c)]\<rparr>"
      and cnt: "count_list (snd (seconds m s1)) (SetIsPlaying False) = 0"
      by blast
    have t: "timers ?s = [(j, ?c)]" and pt: "progressTimer ?s = Some j"
      using assms(2) by (subst frame, simp)+
    have fin: "totalDuration ?c \<le> of_nat (currentTime ?c + 1)"
      using assms(3,4) N by (simp add: run_interval_clock)
    have caps: "cap_sound ?c = None" "cap_session ?c = None"
      using assms(5,6) by (simp_all add: run_interval_clock)
    note step = second_passes_alone_final [OF t pt fin caps]
    have "fst (stopSession None None ?s) = fst (stopSession None None s1)"
      by (subst frame, rule stopped_from_frame [OF assms(1,2)])
        (simp_all add: stop_rejected_def complete_fails_def)
    then show ?thesis
      unfolding seconds_Suc step using cnt callback_final_quiet(2) [OF fin caps]
      by simp
  qed
qed

lemma startSession_started:
  assumes "selectedMRIPattern s = Some p" and "selectedSoundProfile s = Some sp"
  shows "timers (fst (startSession (Some u) created s))
           = timers s @ [(next_timer s, new_closure p (volume s) (sound s) (currentSession s))]"
    and "progressTimer (fst (startSession (Some u) created s)) = Some (next_timer s)"
    and "isPlaying (fst (startSession (Some u) created s))"
    and "snd (startSession (Some u) created s)
           = CreateSession (pattern_id p) (profile_id sp) (volume s)
             # (case sound s of Some h \<Rightarrow> [UnloadAsync h] | None \<Rightarrow> [])
             @ (case created of Some h \<Rightarrow> [] | None \<Rightarrow> [ConsoleError ''Error loading audio:''])
             @ [SetTimeRemaining (duration_minutes p * 60), SetScanProgress 0, SetIsPlaying True]"
  using assms
  by (simp_all add: startSession_def loadAudioFile_def startMRISimulation_def Let_def
      split: option.splits)

lemma startSession_first:
  assumes "selectedMRIPattern s = Some p" and "selectedSoundProfile s = Some sp"
    and "sound s = None"
  shows "\<not> stop_rejected (sound (fst (startSession (Some u) created s)))
            (fst (startSession (Some u) created s))"
    and "backend_up (fst (startSession (Some u) created s)) = backend_up s"
  using assms
  by (simp_all add: startSession_def loadAudioFile_def startMRISimulation_def Let_def
      stop_rejected_def split: option.splits)

text \<open>
  Claim C1, as the code has it. Let a session be started on a screen with nothing
  running that holds no audio object and no session yet (the first session of the
  screen), the backend answering, for a pattern whose total duration is a whole number
  \<open>N > 0\<close> of seconds. During the first \<open>N - 1\<close> seconds the session is playing, its
  interval is live and \<^verbatim>\<open>stopSession\<close> has not run. The \<open>N\<close>-th tick runs
  \<^verbatim>\<open>stopSession\<close>, once: from then on nothing is playing, no interval is live, and the
  state stays what it is. That state is the one the stop button would have produced at
  any second of the run: there is no status or notification of completion apart from what
  \<^verbatim>\<open>stopSession\<close> does.
\<close>

theorem natural_completion:
  assumes "timers s = []" and "sound s = None" and "currentSession s = None"
    and "backend_up s"
    and "selectedMRIPattern s = Some p" and "selectedSoundProfile s = Some sp"
    and "duration_minutes p * 60 = of_nat N" and "0 < N"
  shows "let s1 = fst (startSession (Some u) created s) in
     (\<forall>k<N. isPlaying (fst (seconds k s1)) \<and> timers (fst (seconds k s1)) \<noteq> []
         \<and> count_list (snd (seconds k s1)) (SetIsPlaying False) = 0
         \<and> fst (press_stop (fst (seconds k s1))) = fst (seconds N s1))
     \<and> (\<forall>m\<ge>N. fst (seconds m s1) = fst (seconds N s1)
         \<and> \<not> isPlaying (fst (seconds m s1)) \<and> timers (fst (seconds m s1)) = []
         \<and> count_list (snd (seconds m s1)) (SetIsPlaying False) = 1)"
proof -
  let ?s1 = "fst (startSession (Some u) created s)"
  let ?j = "next_timer s"
  let ?c0 = "new_closure p (volume s) (sound s) (currentSession s)"
  let ?F = "fst (stopSession None None ?s1)"
  note st = startSession_started [OF assms(5,6), of u created]
  note first = startSession_first [OF assms(5,6,2), of u created]
  have t: "timers ?s1 = [(?j, ?c0)]"
    using st(1) assms(1) by simp
  have c0: "currentTime ?c0 = 0" "totalDuration ?c0 = of_nat N"
    using assms(7) by (simp_all add: new_closure_def)
  have caps: "cap_sound ?c0 = None" "cap_session ?c0 = None"
    using assms(2,3) by (simp_all add: new_closure_def)
  have up: "\<not> complete_fails b ?s1" for b
    using first(2) assms(4) by (simp add: complete_fails_def)
  note inv = run_alone_invariant [OF t c0, of _ ?s1]
  note fin = run_alone_completion [OF t st(2) c0 caps assms(8)]
  have stopped: "\<not> isPlaying ?F" "timers ?F = []"
    using t st(2) by (simp_all add: stopSession_done stop_rejected_def complete_fails_def)
  have atN: "fst (seconds N ?s1) = ?F"
    using fin [of N] by simp
  have a: "isPlaying (fst (seconds k ?s1)) \<and> timers (fst (seconds k ?s1)) \<noteq> []
         \<and> count_list (snd (seconds k ?s1)) (SetIsPlaying False) = 0
         \<and> fst (press_stop (fst (seconds k ?s1))) = fst (seconds N ?s1)" if "k < N" for k
  proof -
    let ?s = "fst (seconds k ?s1)"
    from inv [OF that] obtain q r l where
      frame: "?s = ?s1\<lparr>scanProgress := q, timeRemaining := r, currentPhase := l,
                       timers := [(?j, fst (run_interval k ?c0 ?s1))]\<rparr>"
      and cnt: "count_list (snd (seconds k ?s1)) (SetIsPlaying False) = 0"
      by blast
    have "isPlaying ?s" "timers ?s \<noteq> []"
      using st(3) by (subst frame, simp)+
    moreover have "fst (press_stop ?s) = ?F"
      unfolding press_stop_def
      by (subst (3) frame, subst frame, subst frame, simp,
          rule stopped_from_frame [OF t st(2) first(1) up])
    ultimately show ?thesis
      using cnt atN by simp
  qed
  have b: "fst (seconds m ?s1) = fst (seconds N ?s1)
         \<and> \<not> isPlaying (fst (seconds m ?s1)) \<and> timers (fst (seconds m ?s1)) = []
         \<and> count_list (snd (seconds m ?s1)) (SetIsPlaying False) = 1" if "N \<le> m" for m
    using fin [OF that] atN stopped by simp
  show ?thesis
    unfolding Let_def using a b by blast
qed

theorem natural_completion_witness:
  "timers (ready_state example_pattern) = []
   \<and> sound (ready_state example_pattern) = None
   \<and> currentSession (ready_state example_pattern) = None
   \<and> backend_up (ready_state example_pattern)
   \<and> selectedMRIPattern (ready_state example_pattern) = Some example_pattern
   \<and> selectedSoundProfile (ready_state example_pattern) = Some example_profile
   \<and> duration_minutes example_pattern * 60 = of_nat 6
   \<and> (0 :: nat) < 6
   \<and> isPlaying (fst (seconds 5 started_state))
   \<and> count_list (snd (seconds 5 started_state)) (SetIsPlaying False) = 0
   \<and> fst (press_stop (fst (seconds 5 started_state))) = fst (seconds 6 started_state)
   \<and> \<not> isPlaying (fst (seconds 6 started_state))
   \<and> timers (fst (seconds 6 started_state)) = []
   \<and> fst (seconds 7 started_state) = fst (seconds 6 started_state)
   \<and> count_list (snd (seconds 7 started_state)) (SetIsPlaying False) = 1"
proof -
  have h1: "timers (ready_state example_pattern) = []"
    and h2: "sound (ready_state example_pattern) = None"
    and h3: "currentSession (ready_state example_pattern) = None"
    and h4: "backend_up (ready_state example_pattern)"
    and h5: "selectedMRIPattern (ready_state example_pattern) = Some example_pattern"
    and h6: "selectedSoundProfile (ready_state example_pattern) = Some example_profile"
    by (simp_all add: ready_state_def initial_state_def)
  have h7: "duration_minutes example_pattern * 60 = of_nat 6"
    by (simp add: example_pattern_def)
  have h8: "(0 :: nat) < 6"
    by simp
  have k5: "(5 :: nat) < 6" and m6: "(6 :: nat) \<le> 6" and m7: "(6 :: nat) \<le> 7"
    by simp_all
  note t = natural_completion [OF h1 h2 h3 h4 h5 h6 h7 h8, of example_session "Some 3",
      unfolded Let_def, folded started_state_def]
  note a = conjunct1 [OF t, rule_format, OF k5]
  note b = conjunct2 [OF t, rule_format, OF m6]
  note c = conjunct2 [OF t, rule_format, OF m7]
  show ?thesis
    using h1 h2 h3 h4 h5 h6 h7 h8 a b c by blast
qed

text \<open>
  Against claim C1 as stated: the sixth tick of the started example session leaves the
  very state that pressing stop after five seconds leaves, and what it emits is the
  tick's own display values followed by the resets every \<^verbatim>\<open>stopSession\<close> makes. No
  notification of completion is among them, and nothing in the state records it.
\<close>

theorem natural_completion_counterexample:
  "fst (seconds 6 started_state) = fst (press_stop (fst (seconds 5 started_state)))
   \<and> snd (second_passes (fst (seconds 5 started_state)))
     = [SetScanProgress 100, SetTimeRemaining 0, SetCurrentPhase (PhaseName 2 2000),
        SetIsPlaying False, SetScanProgress 0, SetTimeRemaining 0, SetCurrentPhase NoPhase]
   \<and> snd (press_stop (fst (seconds 5 started_state)))
     = [StopAsync 3, CompleteSession ''s1'', SetIsPlaying False, SetScanProgress 0,
        SetTimeRemaining 0, SetCurrentPhase NoPhase]"
  by code_simp

text \<open>
  From its second session on the native screen does not come to rest by itself: the
  callback holds the sound of the session before, which \<^verbatim>\<open>loadAudioFile\<close> has
  unloaded, so the \<^verbatim>\<open>stopAsync\<close> of its \<^verbatim>\<open>stopSession\<close> rejects and neither the
  interval is cleared nor a setter called, tick after tick. Here the second session for
  the example pattern, 6, 7 and 9 seconds after its start.
\<close>

lemma second_session_keeps_ticking:
  "map (\<lambda>n. (isPlaying (fst (seconds n second_session_state)),
              map (\<lambda>q. (fst q, currentTime (snd q))) (timers (fst (seconds n second_session_state)))))
     [6, 7, 9]
   = [(True, [(1, 6)]), (True, [(1, 7)]), (True, [(1, 9)])]
   \<and> snd (second_passes (fst (seconds 5 second_session_state)))
     = [SetScanProgress 100, SetTimeRemaining 0, SetCurrentPhase (PhaseName 2 2000),
        SetVolumeAsync 3 (1 / 4), StopAsync 3, ConsoleError ''Error stopping session:'']"
  by code_simp

section \<open>Starting a session\<close>

text \<open>
  Claim C7, as the code has it. \<^verbatim>\<open>startSession\<close> looks at no field of the pattern:
  whether a start goes through depends on the selection and on the request that creates
  the session, never on the duration or the phases. With a pattern and a profile
  selected and the request answered it raises nothing, installs the interval and sets
  \<^verbatim>\<open>isPlaying\<close>, whatever the pattern. When the request fails it alerts and leaves
  the state as it is, and so it does when no pattern or no profile is selected.
\<close>

theorem startSession_checks_selection_only:
  "(selectedMRIPattern s = Some p \<and> selectedSoundProfile s = Some sp \<longrightarrow>
      isPlaying (fst (startSession (Some u) created s))
      \<and> timers (fst (startSession (Some u) created s))
          = timers s @ [(next_timer s, new_closure p (volume s) (sound s) (currentSession s))]
      \<and> progressTimer (fst (startSession (Some u) created s)) = Some (next_timer s)
      \<and> snd (startSession (Some u) created s)
          = CreateSession (pattern_id p) (profile_id sp) (volume s)
            # (case sound s of Some h \<Rightarrow> [UnloadAsync h] | None \<Rightarrow> [])
            @ (case created of Some h \<Rightarrow> [] | None \<Rightarrow> [ConsoleError ''Error loading audio:''])
            @ [SetTimeRemaining (duration_minutes p * 60), SetScanProgress 0, SetIsPlaying True])
   \<and> (selectedMRIPattern s = Some p \<and> selectedSoundProfile s = Some sp \<longrightarrow>
      startSession None created s
        = (s, [CreateSession (pattern_id p) (profile_id sp) (volume s),
               ConsoleError ''Error starting session:'',
               Alert ''Failed to start masking session'']))
   \<and> (selectedMRIPattern s = None \<or> selectedSoundProfile s = None \<longrightarrow>
      startSession reply created s
        = (s, [Alert ''Please select both MRI pattern and sound profile'']))"
proof (intro conjI impI)
  assume "selectedMRIPattern s = None \<or> selectedSoundProfile s = None"
  then show "startSession reply created s
      = (s, [Alert ''Please select both MRI pattern and sound profile''])"
    by (auto simp add: startSession_def split: option.splits)
next
  assume "selectedMRIPattern s = Some p \<and> selectedSoundProfile s = Some sp"
  then show "startSession None created s
      = (s, [CreateSession (pattern_id p) (profile_id sp) (volume s),
             ConsoleError ''Error starting session:'',
             Alert ''Failed to start masking session''])"
    by (simp add: startSession_def)
qed (simp_all add: startSession_started)

theorem startSession_checks_selection_only_witness:
  "selectedMRIPattern (ready_state empty_pattern) = Some empty_pattern
   \<and> selectedSoundProfile (ready_state empty_pattern) = Some example_profile
   \<and> isPlaying (fst (startSession (Some example_session) None (ready_state empty_pattern)))
   \<and> progressTimer (fst (startSession (Some example_session) None (ready_state empty_pattern)))
       = Some (next_timer (ready_state empty_pattern))
   \<and> startSession None None (ready_state empty_pattern)
       = (ready_state empty_pattern,
          [CreateSession (pattern_id empty_pattern) (profile_id example_profile)
             (volume (ready_state empty_pattern)),
           ConsoleError ''Error starting session:'',
           Alert ''Failed to start masking session''])
   \<and> selectedMRIPattern initial_state = None
   \<and> startSession (Some example_session) None initial_state
       = (initial_state, [Alert ''Please select both MRI pattern and sound profile''])"
proof -
  have h1: "selectedMRIPattern (ready_state empty_pattern) = Some empty_pattern
      \<and> selectedSoundProfile (ready_state empty_pattern) = Some example_profile"
    by (simp add: ready_state_def initial_state_def)
  have h2: "selectedMRIPattern initial_state = None"
    by (simp add: initial_state_def)
  then have h2': "selectedMRIPattern initial_state = None
      \<or> selectedSoundProfile initial_state = None"
    by (rule disjI1)
  note t = startSession_checks_selection_only
      [of "ready_state empty_pattern" empty_pattern example_profile example_session None]
  note a = conjunct1 [OF t, rule_format, OF h1]
  note b = conjunct1 [OF conjunct2 [OF t], rule_format, OF h1]
  note c = conjunct2 [OF conjunct2 [OF startSession_checks_selection_only
      [of initial_state _ _ _ None "Some example_session"]], rule_format, OF h2']
  show ?thesis
    by (intro conjI conjunct1 [OF h1] conjunct2 [OF h1] conjunct1 [OF a]
        conjunct1 [OF conjunct2 [OF conjunct2 [OF a]]] b h2 c)
qed

text \<open>
  Against claim C7 as stated: started for a pattern with no phases and duration 0, the
  session is playing and its interval is live.
\<close>

theorem startSession_counterexample:
  "isPlaying (fst (startSession (Some example_session) None (ready_state empty_pattern)))
   \<and> map fst (timers (fst (startSession (Some example_session) None (ready_state empty_pattern))))
       = [0]
   \<and> snd (startSession (Some example_session) None (ready_state empty_pattern))
       = [CreateSession ''empty'' ''ocean'' (7 / 10), ConsoleError ''Error loading audio:'',
          SetTimeRemaining 0, SetScanProgress 0, SetIsPlaying True]"
  by code_simp

section \<open>Starting again while a session runs\<close>

text \<open>
  Claim C3, as the code has it. \<^verbatim>\<open>startSession\<close> stops nothing: when it is run while
  the interval of an earlier session is live, that interval stays in the table beside the
  new one, \<^verbatim>\<open>stopSession\<close> is not run, and in the next second both fire, each
  advancing its own counters; the counters of the new one start at 0. (The button runs
  \<^verbatim>\<open>startSession\<close> only while nothing is playing.)
\<close>

theorem restart_keeps_previous_schedule:
  assumes "timers s = [(i, c)]" and "i \<noteq> next_timer s"
    and "selectedMRIPattern s = Some p" and "selectedSoundProfile s = Some sp"
    and "\<not> totalDuration c \<le> of_nat (currentTime c + 1)"
    and "1 < duration_minutes p * 60"
  shows "let s' = fst (startSession (Some u) created s);
             c0 = new_closure p (volume s) (sound s) (currentSession s)
         in timers s' = [(i, c), (next_timer s, c0)]
            \<and> currentTime c0 = 0
            \<and> count_list (snd (startSession (Some u) created s)) (SetIsPlaying False) = 0
            \<and> timers (fst (second_passes s'))
                = [(i, tick_counters c), (next_timer s, tick_counters c0)]
            \<and> currentTime (tick_counters c) = currentTime c + 1
            \<and> currentTime (tick_counters c0) = 1"
proof -
  let ?s' = "fst (startSession (Some u) created s)"
  let ?j = "next_timer s"
  let ?c0 = "new_closure p (volume s) (sound s) (currentSession s)"
  note st = startSession_started [OF assms(3,4), of u created]
  have t: "timers ?s' = [(i, c), (?j, ?c0)]"
    using st(1) assms(1) by simp
  have c0: "currentTime ?c0 = 0" "totalDuration ?c0 = duration_minutes p * 60"
    by (simp_all add: new_closure_def)
  have run0: "\<not> totalDuration ?c0 \<le> of_nat (currentTime ?c0 + 1)"
    using assms(6) by (simp add: c0)
  have quiet: "count_list (snd (startSession (Some u) created s)) (SetIsPlaying False) = 0"
    by (simp add: st(4) split: option.splits)
  obtain p1 r1 l1 where a1: "fst (snd (interval_callback c ?s'))
      = ?s'\<lparr>scanProgress := p1, timeRemaining := r1, currentPhase := l1\<rparr>"
    using callback_state_running [OF assms(5)] by blast
  let ?s1 = "?s'\<lparr>scanProgress := p1, timeRemaining := r1, currentPhase := l1,
                   timers := [(i, tick_counters c), (?j, ?c0)]\<rparr>"
  obtain p2 r2 l2 where a2: "fst (snd (interval_callback ?c0 ?s1))
      = ?s1\<lparr>scanProgress := p2, timeRemaining := r2, currentPhase := l2\<rparr>"
    using callback_state_running [OF run0] by blast
  have m1: "map_of (timers ?s') i = Some c"
    by (simp add: t)
  have m2: "map_of (timers ?s1) ?j = Some ?c0"
    using assms(2) by simp
  have f2: "timers (fst (fire [?j] ?s1)) = [(i, tick_counters c), (?j, tick_counters ?c0)]"
    using assms(2) by (simp add: fire_step [OF m2] a2 Let_def del: fire.simps(2))
  have "fst (fire [i, ?j] ?s') = fst (fire [?j] ?s1)"
    using assms(2) by (simp add: fire_step [OF m1] a1 t Let_def del: fire.simps(2))
  then have "timers (fst (second_passes ?s')) = [(i, tick_counters c), (?j, tick_counters ?c0)]"
    using f2 by (simp add: second_passes_def t)
  then show ?thesis
    unfolding Let_def using t c0(1) quiet
    by (simp add: tick_counters_fields)
qed

theorem restart_keeps_previous_schedule_witness:
  "map (\<lambda>q. (fst q, currentTime (snd q))) (timers restarted_state) = [(0, 3), (1, 0)]
   \<and> map (\<lambda>q. (fst q, currentTime (snd q))) (timers (fst (second_passes restarted_state)))
       = [(0, 4), (1, 1)]"
proof -
  let ?s = "fst (seconds 3
      (fst (startSession (Some example_session) (Some 3) (ready_state ten_second_pattern))))"
  let ?c = "(new_closure ten_second_pattern (7 / 10) None None :: nat sim_closure)
      \<lparr>currentTime := 3\<rparr>"
  have h1: "timers ?s = [(0, ?c)]"
    by code_simp
  have h2: "(0 :: nat) \<noteq> next_timer ?s"
    by code_simp
  have h3: "selectedMRIPattern ?s = Some ten_second_pattern"
    by code_simp
  have h4: "selectedSoundProfile ?s = Some example_profile"
    by code_simp
  have h5: "\<not> totalDuration ?c \<le> of_nat (currentTime ?c + 1)"
    by (simp add: new_closure_def ten_second_pattern_def)
  have h6: "1 < duration_minutes ten_second_pattern * 60"
    by (simp add: ten_second_pattern_def)
  have n: "next_timer ?s = 1"
    by code_simp
  note t = restart_keeps_previous_schedule [OF h1 h2 h3 h4 h5 h6,
      of "\<lparr>session_id = ''s2''\<rparr>" "Some 4", unfolded Let_def, folded restarted_state_def]
  have a: "timers restarted_state
      = [(0, ?c), (1, new_closure ten_second_pattern (volume ?s) (sound ?s) (currentSession ?s))]"
    using conjunct1 [OF t] by (simp only: n)
  have b: "timers (fst (second_passes restarted_state))
      = [(0, tick_counters ?c),
         (1, tick_counters
               (new_closure ten_second_pattern (volume ?s) (sound ?s) (currentSession ?s)))]"
    using conjunct1 [OF conjunct2 [OF conjunct2 [OF conjunct2 [OF t]]]] by (simp only: n)
  show ?thesis
    unfolding a b by (simp add: tick_counters_fields new_closure_def)
qed

text \<open>
  Against claim C3 as stated: the spec's own scenario. Ten seconds in all, three ticks,
  then \<^verbatim>\<open>startSession\<close> again. Listed are the live intervals with their time counters
  0, 1, 6, 7 and 13 seconds after the restart: the first interval goes on counting; at
  its tenth tick it runs \<^verbatim>\<open>stopSession\<close>, which clears the second interval after six
  ticks of its ten, and not the first, which counts on.
\<close>

theorem restart_counterexample:
  "map (\<lambda>n. map (\<lambda>q. (fst q, currentTime (snd q))) (timers (fst (seconds n restarted_state))))
     [0, 1, 6, 7, 13]
   = [[(0, 3), (1, 0)], [(0, 4), (1, 1)], [(0, 9), (1, 6)], [(0, 10)], [(0, 16)]]
   \<and> \<not> isPlaying (fst (seconds 7 restarted_state))"
  by code_simp

section \<open>The two screens side by side\<close>

text \<open>
  The callbacks of the two screens show the same values at a firing that does not
  complete the run, when they agree on the timeline values and either both hold an audio
  object or neither does. What sets the screens apart is not in the callbacks.
\<close>

lemma callbacks_alike:
  assumes "timeline c = timeline w" and "(cap_sound c = None) = (cap_sound w = None)"
    and "\<not> totalDuration c \<le> of_nat (currentTime c + 1)"
  shows "observed (snd (snd (interval_callback c s)))
       = observed (snd (snd (web_interval_callback w s')))"
    and "timeline (fst (interval_callback c s)) = timeline (fst (web_interval_callback w s'))"
  using assms
  by (auto simp add: timeline_def interval_callback_def web_interval_callback_def Let_def
      observed_def web_set_volume_def tick_counters_def in_sequence_def phase_ends_def
      split: prod.splits option.splits)

text \<open>
  Claim C10, at the input where the code departs from it: the first session for the
  example pattern, started on each screen, the audio object built without error. On the
  native screen the interval is live and the six ticks show their values and stop the
  session. On the browser screen \<^verbatim>\<open>setAudio\<close> makes the cleanup of the effect with
  the dependency list \<^verbatim>\<open>[audio]\<close> run, which clears the interval just installed: the
  session is shown as playing, no tick ever fires, nothing is computed and nothing stops;
  pressing stop does not end it either, since the pause of the never started audio
  object throws.
\<close>

theorem screens_diverge_at_start:
  "map (\<lambda>q. (fst q, currentTime (snd q))) (timers started_state) = [(0, 0)]
   \<and> observed (snd (seconds 6 started_state))
       = [Progress (50 / 3), Remaining 5, Phase (PhaseName 1 1500),
          Progress (100 / 3), Remaining 4, Phase (PhaseName 1 1500),
          Progress 50, Remaining 3, Phase (PhaseName 1 1500),
          Progress (200 / 3), Remaining 2, Phase (PhaseName 2 1500),
          Progress (250 / 3), Remaining 1, Phase (PhaseName 2 2000),
          Progress 100, Remaining 0, Phase (PhaseName 2 2000),
          Playing False, Progress 0, Remaining 0, Phase NoPhase]
   \<and> snd (web_startSession (Some example_session) (Some 0) (web_ready_state example_pattern))
       = [CreateSession ''example'' ''ocean'' (7 / 10), SetTimeRemaining 6, SetScanProgress 0,
          SetIsPlaying True]
   \<and> isPlaying web_started_state
   \<and> timers web_started_state = []
   \<and> web_seconds 6 web_started_state = (web_started_state, [])
   \<and> web_press_stop web_started_state
       = (web_started_state,
          [Pause \<lparr>element = 0, gainNode = True\<rparr>, ConsoleError ''Error stopping session:''])"
  by code_simp

end
